theory Spec2Isabelle
  imports Main "HOL-Library.Code_Target_Nat"
begin

text \<open>
  A model of \<^verbatim>\<open>api-integration.js\<close>: the API client (\<^verbatim>\<open>GEEApiClient\<close>), the functions that
  load provinces, cities and region geometry, run the vegetation, land-cover and
  composite analyses, and download the statistics. Each function takes the program
  state and returns its result, or the error it throws, with the new state. What the
  program reads from outside (network, page, clock, map library) is a parameter.
  The analysis functions are modelled a second time with their waiting for the network
  made explicit, and the two models are shown to agree. The result map (\<^verbatim>\<open>displayResultsWithTiles\<close>) and the wiring of the page at load time
  are left out: no statement below is about them.
\<close>

section \<open>JavaScript values\<close>

text \<open>
  The values the program handles at run time. A JSON response body parsed by the
  transport library is one of these; \<open>Undefined\<close> and \<open>NaN\<close> only arise inside the
  program (a missing property, a failed \<^verbatim>\<open>parseInt\<close>). Numbers are abstracted to
  integers: the program never computes with them, it only tests them for truthiness
  and prints them. An object is an association list in insertion order; a string is a
  list of code units below 256.
\<close>

datatype jsval =
    Undefined
  | Null
  | Bool bool
  | Num int
  | NaN
  | Str string
  | Arr "jsval list"
  | Obj "(string \<times> jsval) list"

text \<open>ToBoolean: what \<^verbatim>\<open>if (v)\<close>, \<^verbatim>\<open>!v\<close>, \<^verbatim>\<open>a || b\<close> and \<^verbatim>\<open>c ? x : y\<close> test.\<close>

fun truthy :: "jsval \<Rightarrow> bool" where
  "truthy Undefined = False"
| "truthy Null = False"
| "truthy (Bool b) = b"
| "truthy (Num n) = (n \<noteq> 0)"
| "truthy NaN = False"
| "truthy (Str s) = (s \<noteq> [])"
| "truthy (Arr xs) = True"
| "truthy (Obj kvs) = True"

text \<open>\<^verbatim>\<open>a || b\<close>: the left operand when it is truthy, else the right one.\<close>

definition js_or :: "jsval \<Rightarrow> jsval \<Rightarrow> jsval" where
  "js_or a b = (if truthy a then a else b)"

text \<open>What the program can throw or catch.\<close>

datatype js_error = TypeError string | Error string

text \<open>
  Property read \<^verbatim>\<open>v.k\<close> for the keys the program reads (none of them is a built-in
  property of strings, arrays or numbers): a \<^verbatim>\<open>TypeError\<close> on \<^verbatim>\<open>undefined\<close> and
  \<^verbatim>\<open>null\<close>, the stored value on an object that has the key, \<^verbatim>\<open>undefined\<close> otherwise.
\<close>

fun get_prop :: "jsval \<Rightarrow> string \<Rightarrow> js_error + jsval" where
  "get_prop Undefined k = Inl (TypeError (''Cannot read properties of undefined (reading '' @ k @ '')''))"
| "get_prop Null k = Inl (TypeError (''Cannot read properties of null (reading '' @ k @ '')''))"
| "get_prop (Obj kvs) k = Inr (case map_of kvs k of Some v \<Rightarrow> v | None \<Rightarrow> Undefined)"
| "get_prop v k = Inr Undefined"

text \<open>Optional chaining \<^verbatim>\<open>v?.k\<close>: \<^verbatim>\<open>undefined\<close> where the plain read would throw.\<close>

definition get_prop_opt :: "jsval \<Rightarrow> string \<Rightarrow> jsval" where
  "get_prop_opt v k = (case get_prop v k of Inl e \<Rightarrow> Undefined | Inr x \<Rightarrow> x)"

text \<open>Property write \<^verbatim>\<open>o.k = v\<close> on an object: in place, or appended as a new key.\<close>

fun set_prop :: "(string \<times> jsval) list \<Rightarrow> string \<Rightarrow> jsval \<Rightarrow> (string \<times> jsval) list" where
  "set_prop [] k v = [(k, v)]"
| "set_prop ((k', v') # kvs) k v =
     (if k' = k then (k, v) # kvs else (k', v') # set_prop kvs k v)"

subsection \<open>Decimal printing and ToString\<close>

definition digit_char :: "nat \<Rightarrow> char" where
  "digit_char d = char_of (48 + d)"

function show_nat :: "nat \<Rightarrow> string" where
  "show_nat n = (if n < 10 then [digit_char n] else show_nat (n div 10) @ [digit_char (n mod 10)])"
  by pat_completeness auto
termination
  by (relation "measure id") auto

declare show_nat.simps [simp del]

definition show_int :: "int \<Rightarrow> string" where
  "show_int i = (if i < 0 then CHR ''-'' # show_nat (nat (- i)) else show_nat (nat i))"

fun join :: "string \<Rightarrow> string list \<Rightarrow> string" where
  "join sep [] = []"
| "join sep [x] = x"
| "join sep (x # y # ys) = x @ sep @ join sep (y # ys)"

text \<open>
  ToString, as string concatenation and template literals apply it: an array joins
  its elements with commas (\<^verbatim>\<open>null\<close> and \<^verbatim>\<open>undefined\<close> elements print as
  nothing), a plain object prints as \<^verbatim>\<open>[object Object]\<close>.
\<close>

primrec to_string :: "jsval \<Rightarrow> string" where
  "to_string Undefined = ''undefined''"
| "to_string Null = ''null''"
| "to_string (Bool b) = (if b then ''true'' else ''false'')"
| "to_string (Num n) = show_int n"
| "to_string NaN = ''NaN''"
| "to_string (Str s) = s"
| "to_string (Arr xs) =
     join '','' (map (\<lambda>(x, s). if x = Undefined \<or> x = Null then [] else s) (zip xs (map to_string xs)))"
| "to_string (Obj kvs) = ''[object Object]''"


subsection \<open>Object.entries\<close>

text \<open>
  \<^verbatim>\<open>Object.entries\<close> throws on \<^verbatim>\<open>undefined\<close> and \<^verbatim>\<open>null\<close>, enumerates an array or a
  string by index, and gives no entry for the other primitives. On an object the keys
  that are canonical array indices come first, in ascending numeric order, then the
  other keys in insertion order.
\<close>

definition is_digit :: "char \<Rightarrow> bool" where
  "is_digit c = (48 \<le> (of_char c :: nat) \<and> (of_char c :: nat) \<le> 57)"

definition read_nat :: "string \<Rightarrow> nat" where
  "read_nat s = foldl (\<lambda>acc c. 10 * acc + (of_char c - 48)) (0::nat) s"

definition is_array_index :: "string \<Rightarrow> bool" where
  "is_array_index k =
     (k \<noteq> [] \<and> list_all is_digit k \<and> (if hd k = CHR ''0'' then length k = 1 else True) \<and>
      read_nat k < 4294967295)"

definition own_entries :: "(string \<times> 'a) list \<Rightarrow> (string \<times> 'a) list" where
  "own_entries kvs =
     sort_key (\<lambda>kv. read_nat (fst kv)) (filter (\<lambda>kv. is_array_index (fst kv)) kvs) @
     filter (\<lambda>kv. \<not> is_array_index (fst kv)) kvs"

fun object_entries :: "jsval \<Rightarrow> js_error + (string \<times> jsval) list" where
  "object_entries Undefined = Inl (TypeError ''Cannot convert undefined or null to object'')"
| "object_entries Null = Inl (TypeError ''Cannot convert undefined or null to object'')"
| "object_entries (Obj kvs) = Inr (own_entries kvs)"
| "object_entries (Arr xs) = Inr (zip (map show_nat [0..<length xs]) xs)"
| "object_entries (Str s) = Inr (zip (map show_nat [0..<length s]) (map (\<lambda>c. Str [c]) s))"
| "object_entries v = Inr []"

subsection \<open>JSON.stringify\<close>

text \<open>
  The serialisation of ECMAScript (\<^verbatim>\<open>SerializeJSONProperty\<close>), on the values above:
  \<^verbatim>\<open>undefined\<close> has no serialisation (\<open>None\<close>), so an object drops such a member and
  an array prints \<^verbatim>\<open>null\<close> in its place; \<^verbatim>\<open>NaN\<close> prints as \<^verbatim>\<open>null\<close>. \<open>gap\<close> is the
  indentation unit (empty for the compact form, two spaces for
  \<^verbatim>\<open>JSON.stringify(v, null, 2)\<close>), \<open>ind\<close> the current indentation.
\<close>

definition hex_digit :: "nat \<Rightarrow> char" where
  "hex_digit d = (if d < 10 then char_of (48 + d) else char_of (87 + d))"

definition quote_char :: "char \<Rightarrow> string" where
  "quote_char c =
     (if c = CHR 0x08 then [CHR 0x5C, CHR ''b'']
      else if c = CHR 0x09 then [CHR 0x5C, CHR ''t'']
      else if c = CHR 0x0A then [CHR 0x5C, CHR ''n'']
      else if c = CHR 0x0C then [CHR 0x5C, CHR ''f'']
      else if c = CHR 0x0D then [CHR 0x5C, CHR ''r'']
      else if c = CHR 0x22 then [CHR 0x5C, CHR 0x22]
      else if c = CHR 0x5C then [CHR 0x5C, CHR 0x5C]
      else if (of_char c :: nat) < 32
        then [CHR 0x5C, CHR ''u'', CHR ''0'', CHR ''0'',
              hex_digit (of_char c div 16), hex_digit (of_char c mod 16)]
      else [c])"

definition quote_json :: "string \<Rightarrow> string" where
  "quote_json s = [CHR 0x22] @ concat (map quote_char s) @ [CHR 0x22]"

definition wrap_json :: "string \<Rightarrow> string \<Rightarrow> string \<Rightarrow> string \<Rightarrow> string list \<Rightarrow> string" where
  "wrap_json opn cls gap ind parts =
     (if parts = [] then opn @ cls
      else if gap = [] then opn @ join '','' parts @ cls
      else opn @ [CHR 0x0A] @ (ind @ gap) @ join ('','' @ [CHR 0x0A] @ (ind @ gap)) parts @
           [CHR 0x0A] @ ind @ cls)"

fun serialize_json :: "string \<Rightarrow> string \<Rightarrow> jsval \<Rightarrow> string option" where
  "serialize_json gap ind Undefined = None"
| "serialize_json gap ind Null = Some ''null''"
| "serialize_json gap ind (Bool b) = Some (if b then ''true'' else ''false'')"
| "serialize_json gap ind (Num n) = Some (show_int n)"
| "serialize_json gap ind NaN = Some ''null''"
| "serialize_json gap ind (Str s) = Some (quote_json s)"
| "serialize_json gap ind (Arr xs) =
     Some (wrap_json ''['' '']'' gap ind
       (map (\<lambda>x. case serialize_json gap (ind @ gap) x of None \<Rightarrow> ''null'' | Some t \<Rightarrow> t) xs))"
| "serialize_json gap ind (Obj kvs) =
     Some (wrap_json ''{'' ''}'' gap ind
       (concat (map (\<lambda>kt. case snd kt of
                       None \<Rightarrow> []
                     | Some t \<Rightarrow> [quote_json (fst kt) @ '':'' @ (if gap = [] then [] else '' '') @ t])
                (own_entries (map (\<lambda>kv. (fst kv, serialize_json gap (ind @ gap) (snd kv))) kvs)))))"

text \<open>\<^verbatim>\<open>JSON.stringify(v)\<close> and \<^verbatim>\<open>JSON.stringify(v, null, 2)\<close> as JavaScript values.\<close>

definition JSON_stringify :: "jsval \<Rightarrow> jsval" where
  "JSON_stringify v = (case serialize_json [] [] v of None \<Rightarrow> Undefined | Some t \<Rightarrow> Str t)"

definition JSON_stringify2 :: "jsval \<Rightarrow> jsval" where
  "JSON_stringify2 v = (case serialize_json ''  '' [] v of None \<Rightarrow> Undefined | Some t \<Rightarrow> Str t)"


subsection \<open>JSON.parse\<close>

text \<open>
  The JSON grammar, on the texts whose values are among the values above: a number
  with a fraction or an exponent and a \<^verbatim>\<open>\u\<close> escape above \<^verbatim>\<open>00ff\<close> are outside the
  model and give \<open>None\<close>, as a syntax error does. Recursion is bounded by the length of
  the text.
\<close>

definition json_ws :: "char \<Rightarrow> bool" where
  "json_ws c = (c = CHR 0x20 \<or> c = CHR 0x09 \<or> c = CHR 0x0A \<or> c = CHR 0x0D)"

definition skip_ws :: "string \<Rightarrow> string" where
  "skip_ws s = dropWhile json_ws s"

definition hex_value :: "char \<Rightarrow> nat option" where
  "hex_value c =
     (let n = (of_char c :: nat)
      in if 48 \<le> n \<and> n \<le> 57 then Some (n - 48)
         else if 97 \<le> n \<and> n \<le> 102 then Some (n - 87)
         else if 65 \<le> n \<and> n \<le> 70 then Some (n - 55)
         else None)"

definition unescape :: "char \<Rightarrow> char option" where
  "unescape e =
     (if e = CHR 0x22 then Some (CHR 0x22)
      else if e = CHR 0x5C then Some (CHR 0x5C)
      else if e = CHR ''/'' then Some (CHR ''/'')
      else if e = CHR ''b'' then Some (CHR 0x08)
      else if e = CHR ''f'' then Some (CHR 0x0C)
      else if e = CHR ''n'' then Some (CHR 0x0A)
      else if e = CHR ''r'' then Some (CHR 0x0D)
      else if e = CHR ''t'' then Some (CHR 0x09)
      else None)"

text \<open>The four hexadecimal digits of a \<^verbatim>\<open>\u\<close> escape.\<close>

definition unicode_escape :: "string \<Rightarrow> char option" where
  "unicode_escape hs =
     (case map hex_value hs of
        [Some a, Some b, Some c, Some d] \<Rightarrow>
          (if a = 0 \<and> b = 0 then Some (char_of (16 * c + d)) else None)
      | _ \<Rightarrow> None)"

text \<open>The characters of a string after its opening quote, up to the closing one.\<close>

fun parse_chars :: "string \<Rightarrow> (string \<times> string) option" where
  "parse_chars [] = None"
| "parse_chars (c # r) =
     (if c = CHR 0x22 then Some ([], r)
      else if c = CHR 0x5C then
        (case r of
           [] \<Rightarrow> None
         | e # r' \<Rightarrow>
             if e = CHR ''u'' then
               (case unicode_escape (take 4 r') of
                  None \<Rightarrow> None
                | Some d \<Rightarrow>
                    (case parse_chars (drop 4 r') of
                       None \<Rightarrow> None
                     | Some (t, r'') \<Rightarrow> Some (d # t, r'')))
             else
               (case unescape e of
                  None \<Rightarrow> None
                | Some d \<Rightarrow>
                    (case parse_chars r' of
                       None \<Rightarrow> None
                     | Some (t, r'') \<Rightarrow> Some (d # t, r''))))
      else if (of_char c :: nat) < 32 then None
      else (case parse_chars r of
              None \<Rightarrow> None
            | Some (t, r') \<Rightarrow> Some (c # t, r')))"

text \<open>
  An integer literal: an optional minus sign and digits without a leading zero,
  not followed by a fraction or an exponent.
\<close>

definition parse_number :: "string \<Rightarrow> (jsval \<times> string) option" where
  "parse_number s =
     (let negative = (s \<noteq> [] \<and> hd s = CHR ''-'');
          body = (if negative then tl s else s);
          ds = takeWhile is_digit body;
          r = dropWhile is_digit body
      in if ds = [] then None
         else if hd ds = CHR ''0'' \<and> length ds > 1 then None
         else if r \<noteq> [] \<and> (hd r = CHR ''.'' \<or> hd r = CHR ''e'' \<or> hd r = CHR ''E'') then None
         else Some (Num (if negative then - int (read_nat ds) else int (read_nat ds)), r))"

text \<open>An object from its members in text order: a repeated key keeps its last value.\<close>

definition build_object :: "(string \<times> jsval) list \<Rightarrow> (string \<times> jsval) list" where
  "build_object ms = foldl (\<lambda>obj kv. set_prop obj (fst kv) (snd kv)) [] ms"

fun parse_value :: "nat \<Rightarrow> string \<Rightarrow> (jsval \<times> string) option"
  and parse_elements :: "nat \<Rightarrow> string \<Rightarrow> (jsval list \<times> string) option"
  and parse_members :: "nat \<Rightarrow> string \<Rightarrow> ((string \<times> jsval) list \<times> string) option" where
  "parse_value 0 s = None"
| "parse_value (Suc n) s =
     (case skip_ws s of
        [] \<Rightarrow> None
      | c # r \<Rightarrow>
          if c = CHR ''{'' then
            (case skip_ws r of
               [] \<Rightarrow> None
             | d # r' \<Rightarrow>
                 if d = CHR ''}'' then Some (Obj [], r')
                 else (case parse_members n (d # r') of
                         None \<Rightarrow> None
                       | Some (ms, r'') \<Rightarrow> Some (Obj (build_object ms), r'')))
          else if c = CHR ''['' then
            (case skip_ws r of
               [] \<Rightarrow> None
             | d # r' \<Rightarrow>
                 if d = CHR '']'' then Some (Arr [], r')
                 else (case parse_elements n (d # r') of
                         None \<Rightarrow> None
                       | Some (vs, r'') \<Rightarrow> Some (Arr vs, r'')))
          else if c = CHR 0x22 then
            (case parse_chars r of
               None \<Rightarrow> None
             | Some (t, r') \<Rightarrow> Some (Str t, r'))
          else if c = CHR ''-'' \<or> is_digit c then parse_number (c # r)
          else if take 4 (c # r) = ''true'' then Some (Bool True, drop 4 (c # r))
          else if take 5 (c # r) = ''false'' then Some (Bool False, drop 5 (c # r))
          else if take 4 (c # r) = ''null'' then Some (Null, drop 4 (c # r))
          else None)"
| "parse_elements 0 s = None"
| "parse_elements (Suc n) s =
     (case parse_value n s of
        None \<Rightarrow> None
      | Some (v, r) \<Rightarrow>
          (case skip_ws r of
             [] \<Rightarrow> None
           | c # r' \<Rightarrow>
               if c = CHR '','' then
                 (case parse_elements n r' of
                    None \<Rightarrow> None
                  | Some (vs, r'') \<Rightarrow> Some (v # vs, r''))
               else if c = CHR '']'' then Some ([v], r')
               else None))"
| "parse_members 0 s = None"
| "parse_members (Suc n) s =
     (case skip_ws s of
        [] \<Rightarrow> None
      | q # r \<Rightarrow>
          if q = CHR 0x22 then
            (case parse_chars r of
               None \<Rightarrow> None
             | Some (k, r1) \<Rightarrow>
                 (case skip_ws r1 of
                    [] \<Rightarrow> None
                  | c # r2 \<Rightarrow>
                      if c = CHR '':'' then
                        (case parse_value n r2 of
                           None \<Rightarrow> None
                         | Some (v, r3) \<Rightarrow>
                             (case skip_ws r3 of
                                [] \<Rightarrow> None
                              | d # r4 \<Rightarrow>
                                  if d = CHR '','' then
                                    (case parse_members n r4 of
                                       None \<Rightarrow> None
                                     | Some (ms, r5) \<Rightarrow> Some ((k, v) # ms, r5))
                                  else if d = CHR ''}'' then Some ([(k, v)], r4)
                                  else None))
                      else None))
          else None)"

text \<open>\<^verbatim>\<open>JSON.parse(text)\<close>; \<open>None\<close> is the \<^verbatim>\<open>SyntaxError\<close>.\<close>

definition JSON_parse :: "string \<Rightarrow> jsval option" where
  "JSON_parse s =
     (case parse_value (length s) s of
        None \<Rightarrow> None
      | Some (v, r) \<Rightarrow> if skip_ws r = [] then Some v else None)"

text \<open>What may follow a value in a JSON text: nothing, a separator, a closing bracket, white space.\<close>

definition value_end :: "string \<Rightarrow> bool" where
  "value_end r =
     (case r of [] \<Rightarrow> True
      | c # cs \<Rightarrow> c = CHR '','' \<or> c = CHR '']'' \<or> c = CHR ''}'' \<or> json_ws c)"

text \<open>
  What a value reads back as after \<^verbatim>\<open>JSON.parse(JSON.stringify(v))\<close>: \<^verbatim>\<open>NaN\<close> and an
  \<^verbatim>\<open>undefined\<close> array element become \<^verbatim>\<open>null\<close>, an \<^verbatim>\<open>undefined\<close> member is gone, and the
  members come in enumeration order.
\<close>

fun json_norm :: "jsval \<Rightarrow> jsval" where
  "json_norm NaN = Null"
| "json_norm (Arr xs) = Arr (map (\<lambda>x. if x = Undefined then Null else json_norm x) xs)"
| "json_norm (Obj kvs) =
     Obj (build_object
       (filter (\<lambda>kv. snd kv \<noteq> Undefined)
          (own_entries (map (\<lambda>kv. (fst kv, json_norm (snd kv))) kvs))))"
| "json_norm v = v"

section \<open>The transport wrapper\<close>

text \<open>
  \<^verbatim>\<open>const API_CONFIG = { baseURL: 'http://localhost:5000/api', timeout: 120000, retries: 3 };\<close>
\<close>

record api_config =
  cfg_baseURL :: string
  cfg_timeout :: int
  cfg_retries :: int

definition API_CONFIG :: api_config where
  "API_CONFIG = \<lparr>cfg_baseURL = ''http://localhost:5000/api'', cfg_timeout = 120000, cfg_retries = 3\<rparr>"

text \<open>
  The constructor copies the base URL (its parameter, defaulting to the configured
  one) and the timeout out of the configuration.
\<close>

record client =
  client_baseURL :: string
  client_timeout :: int

definition GEEApiClient :: "api_config \<Rightarrow> string option \<Rightarrow> client" where
  "GEEApiClient cfg baseURL =
     \<lparr>client_baseURL = (case baseURL of None \<Rightarrow> cfg_baseURL cfg | Some u \<Rightarrow> u),
      client_timeout = cfg_timeout cfg\<rparr>"

text \<open>\<^verbatim>\<open>const apiClient = new GEEApiClient();\<close>\<close>

definition apiClient :: "api_config \<Rightarrow> client" where
  "apiClient cfg = GEEApiClient cfg None"

text \<open>
  The body a caller hands to a request is any JavaScript value. \<^verbatim>\<open>JSON.stringify\<close> throws a
  \<^verbatim>\<open>TypeError\<close> on some of them: an object that refers back to itself (a map layer, a
  DOM node), an object or array that holds a \<^verbatim>\<open>BigInt\<close>, a \<^verbatim>\<open>BigInt\<close> other than
  \<^verbatim>\<open>0n\<close>. These are all truthy; \<open>Unserializable\<close> stands for any of them, \<open>Json\<close> for
  the values of the model, which \<^verbatim>\<open>JSON.stringify\<close> never throws on.
\<close>

datatype request_data = Json jsval | Unserializable

fun data_truthy :: "request_data \<Rightarrow> bool" where
  "data_truthy (Json v) = truthy v"
| "data_truthy Unserializable = True"

fun stringify_data :: "request_data \<Rightarrow> js_error + jsval" where
  "stringify_data (Json v) = Inr (JSON_stringify v)"
| "stringify_data Unserializable = Inl (TypeError ''Converting circular structure to JSON'')"

text \<open>
  The options bag of a request; \<open>None\<close> is a key the caller did not write, which the
  spread \<^verbatim>\<open>{ ...defaultOptions, ...options }\<close> leaves at its default.
\<close>

record options =
  opt_method :: "jsval option"
  opt_data :: "request_data option"
  opt_headers :: "jsval option"
  opt_timeout :: "jsval option"

definition no_options :: options where
  "no_options = \<lparr>opt_method = None, opt_data = None, opt_headers = None, opt_timeout = None\<rparr>"

text \<open>The settings object handed to \<^verbatim>\<open>$.ajax\<close>.\<close>

record ajax_settings =
  ajax_url :: string
  ajax_method :: jsval
  ajax_data :: jsval
  ajax_contentType :: jsval
  ajax_timeout :: jsval
  ajax_dataType :: string

text \<open>
  What awaiting \<^verbatim>\<open>$.ajax\<close> gives: the parsed body when the call succeeds, else the
  rejected transport object, of which the wrapper reads \<^verbatim>\<open>responseJSON\<close> (\<^verbatim>\<open>undefined\<close>
  when the error body is not JSON) and \<^verbatim>\<open>statusText\<close>.
\<close>

record jqxhr =
  responseJSON :: jsval
  statusText :: string

datatype ajax_outcome = Resolved jsval | Rejected jqxhr

text \<open>The value bound by \<^verbatim>\<open>catch (error)\<close>: the rejected transport object or a thrown error.\<close>

datatype caught = CaughtXHR jqxhr | CaughtError js_error

fun caught_responseJSON :: "caught \<Rightarrow> jsval" where
  "caught_responseJSON (CaughtXHR x) = responseJSON x"
| "caught_responseJSON (CaughtError e) = Undefined"

fun caught_statusText :: "caught \<Rightarrow> jsval" where
  "caught_statusText (CaughtXHR x) = Str (statusText x)"
| "caught_statusText (CaughtError e) = Undefined"

text \<open>The request result: \<^verbatim>\<open>{ success: true, data }\<close> or \<^verbatim>\<open>{ success: false, error }\<close>.\<close>

datatype request_result = Success jsval | Failure jsval

fun res_success :: "request_result \<Rightarrow> bool" where
  "res_success (Success d) = True"
| "res_success (Failure e) = False"

fun res_data :: "request_result \<Rightarrow> jsval" where
  "res_data (Success d) = d"
| "res_data (Failure e) = Undefined"

fun res_error :: "request_result \<Rightarrow> jsval" where
  "res_error (Success d) = Undefined"
| "res_error (Failure e) = e"

section \<open>Program state, effects and environment\<close>

text \<open>Leaflet bounds, read through \<^verbatim>\<open>getWest()\<close>, \<^verbatim>\<open>getSouth()\<close>, \<^verbatim>\<open>getEast()\<close>, \<^verbatim>\<open>getNorth()\<close>.\<close>

record bounds =
  getWest :: jsval
  getSouth :: jsval
  getEast :: jsval
  getNorth :: jsval

text \<open>
  A layer built by \<^verbatim>\<open>L.geoJSON\<close>; \<^verbatim>\<open>getBounds()\<close> of a layer without any point is not
  valid (\<open>None\<close>), and \<^verbatim>\<open>map.fitBounds\<close> throws on it.
\<close>

record geo_layer =
  layer_geojson :: jsval
  layer_bounds :: "bounds option"

text \<open>
  The area of interest, \<^verbatim>\<open>currentAOI\<close>; \<open>None\<close> below is \<^verbatim>\<open>null\<close>. Its name is a string
  (this file takes it from the text of the selected option) and its geometry is a
  bounds object.
\<close>

record aoi =
  aoi_type :: string
  aoi_name :: string
  aoi_geometry :: bounds
  aoi_area :: jsval
  aoi_geojson :: jsval

text \<open>
  Every effect on the page, the map and the network is recorded, in order, in a log.
\<close>

datatype event =
    ShowLoading string string
  | HideLoading
  | ShowAlert string string
  | ConsoleError string
  | AjaxSend ajax_settings
  | AjaxSettle ajax_outcome
  | SetHtml string string
  | AppendHtml string string
  | ClearLayers
  | AddLayer geo_layer
  | FitBounds bounds
  | ShowAOIInfo
  | DisplayResults
  | ScrollTo int
  | Download string string
  | RevokeObjectURL

record state =
  currentAOI :: "aoi option"
  analysisResults :: "(string \<times> jsval) list"
  drawnItems :: "geo_layer list"
  log :: "event list"

definition emit :: "event \<Rightarrow> state \<Rightarrow> state" where
  "emit e s = s\<lparr>log := log s @ [e]\<rparr>"

text \<open>
  What the program reads from outside itself: the configuration, the network (the
  outcome of the \<open>n\<close>-th call, given its settings), the page's form controls, the
  globals and library functions defined outside this file, and the clock.
\<close>

record env =
  config :: api_config
  net :: "nat \<Rightarrow> ajax_settings \<Rightarrow> ajax_outcome"
  parseInt :: "jsval \<Rightarrow> jsval"
  dom_text :: "string \<Rightarrow> string"
  dom_val :: "string \<Rightarrow> jsval"
  dom_checked :: "string \<Rightarrow> bool"
  selectedIndices :: jsval
  L_geoJSON :: "jsval \<Rightarrow> js_error + geo_layer"
  calculateAreaFromBounds :: "bounds \<Rightarrow> jsval"
  resultsSection_top :: "int option"
  date_iso :: string
  date_millis :: nat

fun is_send :: "event \<Rightarrow> bool" where
  "is_send (AjaxSend a) = True"
| "is_send e = False"

definition sends :: "event list \<Rightarrow> nat" where
  "sends es = length (filter is_send es)"

text \<open>
  The five functions below are defined in the page, outside this file; each is
  recorded as one event of the log.
\<close>

text \<open>
  Modelled from the spec: \<^verbatim>\<open>showLoading\<close> is missing. The spec has it show a loading
  indicator with a title and a subtitle.
\<close>

definition showLoading :: "string \<Rightarrow> string \<Rightarrow> state \<Rightarrow> state" where
  "showLoading title subtitle s = emit (ShowLoading title subtitle) s"

text \<open>
  Modelled from the spec: \<^verbatim>\<open>hideLoading\<close> is missing. The spec has it hide the loading
  indicator.
\<close>

definition hideLoading :: "state \<Rightarrow> state" where
  "hideLoading s = emit HideLoading s"

text \<open>
  Modelled from the spec: \<^verbatim>\<open>showAlert\<close> is missing. The spec has it show a dismissible
  alert with a text and a severity tag.
\<close>

definition showAlert :: "string \<Rightarrow> string \<Rightarrow> state \<Rightarrow> state" where
  "showAlert message severity s = emit (ShowAlert message severity) s"

text \<open>
  Modelled from the spec: \<^verbatim>\<open>showAOIInfo\<close> is missing. It shows the selected area of
  interest.
\<close>

definition showAOIInfo :: "state \<Rightarrow> state" where
  "showAOIInfo s = emit ShowAOIInfo s"

text \<open>
  Modelled from the spec: \<^verbatim>\<open>displayResults\<close> is missing. The spec has it display the
  accumulated results.
\<close>

definition displayResults :: "state \<Rightarrow> state" where
  "displayResults s = emit DisplayResults s"

subsection \<open>request\<close>

text \<open>
  \<^verbatim>\<open>
  async request(endpoint, options = {}) {
      const url = `${this.baseURL}${endpoint}`;
      const defaultOptions = { headers: { 'Content-Type': 'application/json' }, timeout: this.timeout };
      const config = { ...defaultOptions, ...options };
      try {
          const response = await $.ajax({
              url: url, method: config.method || 'GET',
              data: config.data ? JSON.stringify(config.data) : undefined,
              contentType: config.headers['Content-Type'],
              timeout: config.timeout, dataType: 'json' });
          return { success: true, data: response };
      } catch (error) {
          console.error('API Request Error:', error);
          return { success: false,
                   error: error.responseJSON?.error || error.statusText || 'Network error' };
      }
  }
  \<close>
  The settings object is built before \<^verbatim>\<open>$.ajax\<close> is called, inside the \<^verbatim>\<open>try\<close>, its
  properties in the order written: \<^verbatim>\<open>JSON.stringify(config.data)\<close> throws on data it
  cannot serialise, then reading \<^verbatim>\<open>config.headers['Content-Type']\<close> throws when the caller
  overrode \<^verbatim>\<open>headers\<close> with \<^verbatim>\<open>null\<close> or \<^verbatim>\<open>undefined\<close>. The handler catches both, and
  \<^verbatim>\<open>$.ajax\<close> is not called.
\<close>

definition request_catch :: "caught \<Rightarrow> state \<Rightarrow> (js_error + request_result) \<times> state" where
  "request_catch error s =
     (Inr (Failure (js_or (get_prop_opt (caught_responseJSON error) ''error'')
                      (js_or (caught_statusText error) (Str ''Network error'')))),
      emit (ConsoleError ''API Request Error:'') s)"

text \<open>The argument of \<^verbatim>\<open>$.ajax\<close>, or the error thrown while building it.\<close>

definition ajax_settings_of :: "client \<Rightarrow> string \<Rightarrow> options \<Rightarrow> js_error + ajax_settings" where
  "ajax_settings_of this endpoint options =
     (let url = client_baseURL this @ endpoint;
          config_method = (case opt_method options of None \<Rightarrow> Undefined | Some v \<Rightarrow> v);
          config_data = (case opt_data options of None \<Rightarrow> Json Undefined | Some v \<Rightarrow> v);
          config_headers = (case opt_headers options of
                              None \<Rightarrow> Obj [(''Content-Type'', Str ''application/json'')]
                            | Some v \<Rightarrow> v);
          config_timeout = (case opt_timeout options of
                              None \<Rightarrow> Num (client_timeout this)
                            | Some v \<Rightarrow> v)
      in case (if data_truthy config_data then stringify_data config_data else Inr Undefined) of
           Inl e \<Rightarrow> Inl e
         | Inr data \<Rightarrow>
             (case get_prop config_headers ''Content-Type'' of
                Inl e \<Rightarrow> Inl e
              | Inr contentType \<Rightarrow>
                  Inr \<lparr>ajax_url = url,
                       ajax_method = js_or config_method (Str ''GET''),
                       ajax_data = data,
                       ajax_contentType = contentType,
                       ajax_timeout = config_timeout,
                       ajax_dataType = ''json''\<rparr>))"

definition request ::
  "env \<Rightarrow> client \<Rightarrow> string \<Rightarrow> options \<Rightarrow> state \<Rightarrow> (js_error + request_result) \<times> state" where
  "request env this endpoint options s =
     (case ajax_settings_of this endpoint options of
        Inl e \<Rightarrow> request_catch (CaughtError e) s
      | Inr settings \<Rightarrow>
          (let s1 = emit (AjaxSend settings) s;
               outcome = net env (sends (log s)) settings;
               s2 = emit (AjaxSettle outcome) s1
           in case outcome of
                Resolved response \<Rightarrow> (Inr (Success response), s2)
              | Rejected x \<Rightarrow> request_catch (CaughtXHR x) s2))"

subsection \<open>Endpoint methods\<close>

definition healthCheck :: "env \<Rightarrow> client \<Rightarrow> state \<Rightarrow> (js_error + request_result) \<times> state" where
  "healthCheck env this s = request env this ''/health'' no_options s"

definition getProvinces :: "env \<Rightarrow> client \<Rightarrow> state \<Rightarrow> (js_error + request_result) \<times> state" where
  "getProvinces env this s = request env this ''/regions/provinces'' no_options s"

definition getCities ::
  "env \<Rightarrow> client \<Rightarrow> jsval \<Rightarrow> state \<Rightarrow> (js_error + request_result) \<times> state" where
  "getCities env this provinceCode s =
     request env this (''/regions/cities?province_code='' @ to_string provinceCode) no_options s"

definition getRegionGeometry ::
  "env \<Rightarrow> client \<Rightarrow> jsval \<Rightarrow> jsval \<Rightarrow> state \<Rightarrow> (js_error + request_result) \<times> state" where
  "getRegionGeometry env this endpoint code s =
     request env this
       (''/regions/geometry?endpoint='' @ to_string endpoint @ ''&code='' @ to_string code)
       no_options s"

definition post_options :: "request_data \<Rightarrow> options" where
  "post_options params = no_options\<lparr>opt_method := Some (Str ''POST''), opt_data := Some params\<rparr>"

definition analyzeVegetation ::
  "env \<Rightarrow> client \<Rightarrow> request_data \<Rightarrow> state \<Rightarrow> (js_error + request_result) \<times> state" where
  "analyzeVegetation env this params s =
     request env this ''/analyze/vegetation'' (post_options params) s"

definition analyzeLandCover ::
  "env \<Rightarrow> client \<Rightarrow> request_data \<Rightarrow> state \<Rightarrow> (js_error + request_result) \<times> state" where
  "analyzeLandCover env this params s =
     request env this ''/analyze/landcover'' (post_options params) s"

definition analyzeTimeSeries ::
  "env \<Rightarrow> client \<Rightarrow> request_data \<Rightarrow> state \<Rightarrow> (js_error + request_result) \<times> state" where
  "analyzeTimeSeries env this params s =
     request env this ''/timeseries'' (post_options params) s"

definition exportToDrive ::
  "env \<Rightarrow> client \<Rightarrow> request_data \<Rightarrow> state \<Rightarrow> (js_error + request_result) \<times> state" where
  "exportToDrive env this params s =
     request env this ''/export'' (post_options params) s"


section \<open>Orchestration functions\<close>

definition option_html :: "string \<Rightarrow> string \<Rightarrow> string" where
  "option_html v t = ''<option value='' @ [CHR 0x22] @ v @ [CHR 0x22] @ ''>'' @ t @ ''</option>''"

text \<open>
  \<^verbatim>\<open>for (const [name, code] of entries) select.append(`<option value="${code}">${name}</option>`);\<close>
\<close>

fun append_options :: "string \<Rightarrow> (string \<times> jsval) list \<Rightarrow> state \<Rightarrow> state" where
  "append_options sel [] s = s"
| "append_options sel ((name, code) # rest) s =
     append_options sel rest (emit (AppendHtml sel (option_html (to_string code) name)) s)"

subsection \<open>loadProvincesFromAPI, loadCitiesFromAPI\<close>

definition loadProvincesFromAPI :: "env \<Rightarrow> state \<Rightarrow> (js_error + jsval) \<times> state" where
  "loadProvincesFromAPI env s =
     (let s1 = showLoading ''Loading provinces...'' ''Fetching data from server'' s
      in case getProvinces env (apiClient (config env)) s1 of
           (Inl e, s2) \<Rightarrow> (Inl e, s2)
         | (Inr response, s2) \<Rightarrow>
             (let s3 = hideLoading s2
              in if res_success response then
                   (let s4 = emit (SetHtml ''#provinceSelect''
                                     (option_html [] ''-- Select Province --'')) s3
                    in case object_entries (res_data response) of
                         Inl e \<Rightarrow> (Inl e, s4)
                       | Inr entries \<Rightarrow>
                           (Inr (res_data response), append_options ''#provinceSelect'' entries s4))
                 else (Inr (Obj []),
                       showAlert (''Failed to load provinces: '' @ to_string (res_error response))
                         ''danger'' s3)))"

definition loadCitiesFromAPI :: "env \<Rightarrow> jsval \<Rightarrow> state \<Rightarrow> (js_error + jsval) \<times> state" where
  "loadCitiesFromAPI env provinceCode s =
     (let s1 = showLoading ''Loading cities...'' ''Fetching data from server'' s
      in case getCities env (apiClient (config env)) provinceCode s1 of
           (Inl e, s2) \<Rightarrow> (Inl e, s2)
         | (Inr response, s2) \<Rightarrow>
             (let s3 = hideLoading s2
              in if res_success response then
                   (let s4 = emit (SetHtml ''#citySelect''
                                     (option_html [] ''-- Select City --'')) s3;
                        s5 = emit (AppendHtml ''#citySelect''
                                     (option_html ''use_province'' ''-- Use Province --'')) s4
                    in case object_entries (res_data response) of
                         Inl e \<Rightarrow> (Inl e, s5)
                       | Inr entries \<Rightarrow>
                           (Inr (res_data response), append_options ''#citySelect'' entries s5))
                 else (Inr (Obj []),
                       showAlert (''Failed to load cities: '' @ to_string (res_error response))
                         ''danger'' s3)))"

subsection \<open>loadRegionGeometryFromAPI\<close>

text \<open>
  The success branch, from \<^verbatim>\<open>drawnItems.clearLayers()\<close> to \<^verbatim>\<open>return geojson\<close>.
  \<^verbatim>\<open>L.geoJSON\<close> may throw on a malformed document and \<^verbatim>\<open>map.fitBounds\<close> throws on bounds
  that are not valid, both after the layers were cleared.
\<close>

definition region_loaded :: "env \<Rightarrow> jsval \<Rightarrow> state \<Rightarrow> (js_error + jsval) \<times> state" where
  "region_loaded env geojson s3 =
     (let s4 = emit ClearLayers (s3\<lparr>drawnItems := []\<rparr>)
      in case L_geoJSON env geojson of
           Inl e \<Rightarrow> (Inl e, s4)
         | Inr geoJsonLayer \<Rightarrow>
             (let s5 = emit (AddLayer geoJsonLayer)
                         (s4\<lparr>drawnItems := drawnItems s4 @ [geoJsonLayer]\<rparr>)
              in case layer_bounds geoJsonLayer of
                   None \<Rightarrow> (Inl (Error ''Bounds are not valid.''), s5)
                 | Some bounds \<Rightarrow>
                     (let s6 = emit (FitBounds bounds) s5;
                          area = calculateAreaFromBounds env bounds;
                          city = dom_text env ''#citySelect option:selected'';
                          s7 = s6\<lparr>currentAOI := Some
                                 \<lparr>aoi_type = ''admin'',
                                  aoi_name = (if city \<noteq> [] then city
                                              else dom_text env ''#provinceSelect option:selected''),
                                  aoi_geometry = bounds,
                                  aoi_area = area,
                                  aoi_geojson = geojson\<rparr>\<rparr>;
                          s8 = showAOIInfo s7;
                          s9 = showAlert ''Region loaded successfully!'' ''success'' s8
                      in (Inr geojson, s9))))"

definition loadRegionGeometryFromAPI ::
  "env \<Rightarrow> jsval \<Rightarrow> jsval \<Rightarrow> state \<Rightarrow> (js_error + jsval) \<times> state" where
  "loadRegionGeometryFromAPI env endpoint code s =
     (let s1 = showLoading ''Loading region geometry...'' ''Fetching boundary data'' s
      in case getRegionGeometry env (apiClient (config env)) endpoint code s1 of
           (Inl e, s2) \<Rightarrow> (Inl e, s2)
         | (Inr response, s2) \<Rightarrow>
             (let s3 = hideLoading s2
              in if res_success response \<and> truthy (res_data response) then
                   region_loaded env (res_data response) s3
                 else (Inr Null,
                       showAlert (''Failed to load region geometry: '' @
                                    to_string (js_or (res_error response) (Str ''Unknown error'')))
                         ''danger'' s3)))"

subsection \<open>runVegetationAnalysisAPI, runLandCoverAnalysisAPI\<close>

definition aoi_params :: "aoi \<Rightarrow> jsval" where
  "aoi_params a =
     Obj [(''west'', getWest (aoi_geometry a)), (''south'', getSouth (aoi_geometry a)),
          (''east'', getEast (aoi_geometry a)), (''north'', getNorth (aoi_geometry a))]"

definition vegetation_params :: "env \<Rightarrow> aoi \<Rightarrow> jsval" where
  "vegetation_params env a =
     Obj [(''aoi'', aoi_params a),
          (''year'', parseInt env (Str (dom_text env ''#yearValue''))),
          (''start_month'', parseInt env (dom_val env ''#startMonth'')),
          (''end_month'', parseInt env (dom_val env ''#endMonth'')),
          (''cloud_threshold'', parseInt env (Str (dom_text env ''#cloudValue''))),
          (''indices'', selectedIndices env)]"

definition runVegetationAnalysisAPI :: "env \<Rightarrow> state \<Rightarrow> (js_error + jsval) \<times> state" where
  "runVegetationAnalysisAPI env s =
     (case currentAOI s of
        None \<Rightarrow> (Inr Null, showAlert ''Please select an AOI first'' ''warning'' s)
      | Some a \<Rightarrow>
          (let s1 = showLoading ''Analyzing vegetation indices...''
                      ''Processing Sentinel-2 imagery'' s;
               params = vegetation_params env a
           in case analyzeVegetation env (apiClient (config env)) (Json params) s1 of
                (Inl e, s2) \<Rightarrow> (Inl e, s2)
              | (Inr response, s2) \<Rightarrow>
                  (let s3 = hideLoading s2
                   in if res_success response then
                        (case get_prop (res_data response) ''collection_size'' of
                           Inl e \<Rightarrow> (Inl e, s3)
                         | Inr n \<Rightarrow>
                             (Inr (res_data response),
                              showAlert (''Analysis complete! Found '' @ to_string n @ '' images'')
                                ''success'' s3))
                      else (Inr Null,
                            showAlert (''Vegetation analysis failed: '' @
                                         to_string (res_error response)) ''danger'' s3))))"

definition selected_datasets :: "env \<Rightarrow> jsval list" where
  "selected_datasets env =
     (if dom_checked env ''#dynamicWorld'' then [Str ''Dynamic_World''] else []) @
     (if dom_checked env ''#esaWorld'' then [Str ''ESA_WorldCover''] else []) @
     (if dom_checked env ''#esriLand'' then [Str ''ESRI_LandCover''] else [])"

definition landcover_params :: "env \<Rightarrow> aoi \<Rightarrow> jsval" where
  "landcover_params env a =
     (let datasets = selected_datasets env
      in Obj [(''aoi'', aoi_params a),
              (''year'', parseInt env (Str (dom_text env ''#yearValue''))),
              (''datasets'', Arr datasets),
              (''dw_mode'', dom_val env ''#dwMode'')])"

definition runLandCoverAnalysisAPI :: "env \<Rightarrow> state \<Rightarrow> (js_error + jsval) \<times> state" where
  "runLandCoverAnalysisAPI env s =
     (case currentAOI s of
        None \<Rightarrow> (Inr Null, showAlert ''Please select an AOI first'' ''warning'' s)
      | Some a \<Rightarrow>
          (let s1 = showLoading ''Analyzing land cover...'' ''Processing land cover datasets'' s;
               params = landcover_params env a
           in case analyzeLandCover env (apiClient (config env)) (Json params) s1 of
                (Inl e, s2) \<Rightarrow> (Inl e, s2)
              | (Inr response, s2) \<Rightarrow>
                  (let s3 = hideLoading s2
                   in if res_success response then
                        (Inr (res_data response),
                         showAlert ''Land cover analysis complete!'' ''success'' s3)
                      else (Inr Null,
                            showAlert (''Land cover analysis failed: '' @
                                         to_string (res_error response)) ''danger'' s3))))"

subsection \<open>runCompleteAnalysis\<close>

definition Object_keys :: "(string \<times> jsval) list \<Rightarrow> string list" where
  "Object_keys kvs = map fst (own_entries kvs)"

text \<open>
  \<^verbatim>\<open>
  if (analysisType === 'vegetation' || analysisType === 'combined') {
      const vegData = await runVegetationAnalysisAPI();
      if (vegData) {
          analysisResults.vegetation = vegData.indices;
          analysisResults.rgb_tile_url = vegData.rgb_tile_url;
          analysisResults.collection_size = vegData.collection_size;
      }
  }
  \<close>
\<close>

definition store_vegetation :: "jsval \<Rightarrow> state \<Rightarrow> (js_error + unit) \<times> state" where
  "store_vegetation vegData s =
     (case get_prop vegData ''indices'' of
        Inl e \<Rightarrow> (Inl e, s)
      | Inr indices \<Rightarrow>
          (let s1 = s\<lparr>analysisResults := set_prop (analysisResults s) ''vegetation'' indices\<rparr>
           in case get_prop vegData ''rgb_tile_url'' of
                Inl e \<Rightarrow> (Inl e, s1)
              | Inr rgb \<Rightarrow>
                  (let s2 = s1\<lparr>analysisResults :=
                                 set_prop (analysisResults s1) ''rgb_tile_url'' rgb\<rparr>
                   in case get_prop vegData ''collection_size'' of
                        Inl e \<Rightarrow> (Inl e, s2)
                      | Inr n \<Rightarrow>
                          (Inr (), s2\<lparr>analysisResults :=
                                        set_prop (analysisResults s2) ''collection_size'' n\<rparr>))))"

definition vegetation_step :: "env \<Rightarrow> jsval \<Rightarrow> state \<Rightarrow> (js_error + unit) \<times> state" where
  "vegetation_step env analysisType s =
     (if analysisType = Str ''vegetation'' \<or> analysisType = Str ''combined'' then
        (case runVegetationAnalysisAPI env s of
           (Inl e, s1) \<Rightarrow> (Inl e, s1)
         | (Inr vegData, s1) \<Rightarrow>
             (if truthy vegData then store_vegetation vegData s1 else (Inr (), s1)))
      else (Inr (), s))"

text \<open>
  \<^verbatim>\<open>
  if (analysisType === 'landcover' || analysisType === 'combined') {
      const lcData = await runLandCoverAnalysisAPI();
      if (lcData) { analysisResults.landcover = lcData; }
  }
  \<close>
\<close>

definition landcover_step :: "env \<Rightarrow> jsval \<Rightarrow> state \<Rightarrow> (js_error + unit) \<times> state" where
  "landcover_step env analysisType s =
     (if analysisType = Str ''landcover'' \<or> analysisType = Str ''combined'' then
        (case runLandCoverAnalysisAPI env s of
           (Inl e, s1) \<Rightarrow> (Inl e, s1)
         | (Inr lcData, s1) \<Rightarrow>
             (if truthy lcData
              then (Inr (), s1\<lparr>analysisResults := set_prop (analysisResults s1) ''landcover'' lcData\<rparr>)
              else (Inr (), s1)))
      else (Inr (), s))"

text \<open>
  \<^verbatim>\<open>
  if (Object.keys(analysisResults).length > 0) {
      displayResults();
      $('html, body').animate({ scrollTop: $('#resultsSection').offset().top - 100 }, 500);
  }
  \<close>
  \<^verbatim>\<open>offset()\<close> is \<^verbatim>\<open>undefined\<close> when the page has no results section.
\<close>

definition display_step :: "env \<Rightarrow> state \<Rightarrow> (js_error + unit) \<times> state" where
  "display_step env s =
     (if length (Object_keys (analysisResults s)) > 0 then
        (let s1 = displayResults s
         in case resultsSection_top env of
              None \<Rightarrow> (Inl (TypeError ''Cannot read properties of undefined (reading top)''), s1)
            | Some offset_top \<Rightarrow> (Inr (), emit (ScrollTo (offset_top - 100)) s1))
      else (Inr (), s))"

text \<open>The body of the \<^verbatim>\<open>try\<close> block: the three steps in sequence.\<close>

definition complete_try :: "env \<Rightarrow> jsval \<Rightarrow> state \<Rightarrow> (js_error + unit) \<times> state" where
  "complete_try env analysisType s =
     (case vegetation_step env analysisType s of
        (Inl e, s1) \<Rightarrow> (Inl e, s1)
      | (Inr u, s1) \<Rightarrow>
          (case landcover_step env analysisType s1 of
             (Inl e, s2) \<Rightarrow> (Inl e, s2)
           | (Inr u, s2) \<Rightarrow> display_step env s2))"

definition runCompleteAnalysis :: "env \<Rightarrow> state \<Rightarrow> (js_error + unit) \<times> state" where
  "runCompleteAnalysis env s =
     (case currentAOI s of
        None \<Rightarrow> (Inr (), showAlert ''Please select an AOI first'' ''warning'' s)
      | Some a \<Rightarrow>
          (let analysisType = dom_val env ''#analysisType'';
               s0 = s\<lparr>analysisResults := []\<rparr>
           in case complete_try env analysisType s0 of
                (Inl error, s1) \<Rightarrow>
                  (Inr (), showAlert ''An error occurred during analysis'' ''danger''
                             (emit (ConsoleError ''Analysis error:'') s1))
              | (Inr u, s1) \<Rightarrow> (Inr (), s1)))"

subsection \<open>downloadStatisticsReal\<close>

text \<open>The characters \<^verbatim>\<open>\s\<close> matches, among the code units below 256.\<close>

definition is_space :: "char \<Rightarrow> bool" where
  "is_space c = ((of_char c :: nat) \<in> {9, 10, 11, 12, 13, 32, 160})"

text \<open>\<^verbatim>\<open>name.replace(/\s+/g, '_')\<close>: each maximal run of whitespace becomes one underscore.\<close>

function replace_spaces :: "string \<Rightarrow> string" where
  "replace_spaces [] = []"
| "replace_spaces (c # cs) =
     (if is_space c then CHR ''_'' # replace_spaces (dropWhile is_space cs)
      else c # replace_spaces cs)"
  by pat_completeness auto
termination
  by (relation "measure length") (auto simp: le_imp_less_Suc length_dropWhile_le)

definition download_name :: "string \<Rightarrow> nat \<Rightarrow> string" where
  "download_name name millis =
     ''gee_analysis_'' @ replace_spaces name @ ''_'' @ show_nat millis @ ''.json''"

definition build_stats :: "env \<Rightarrow> aoi \<Rightarrow> (string \<times> jsval) list \<Rightarrow> jsval" where
  "build_stats env a results =
     Obj [(''analysis_date'', Str (date_iso env)),
          (''region'', Str (aoi_name a)),
          (''area_km2'', aoi_area a),
          (''year'', Str (dom_text env ''#yearValue'')),
          (''analysis_type'', dom_val env ''#analysisType''),
          (''parameters'',
             Obj [(''date_range'', Obj [(''start_month'', dom_val env ''#startMonth''),
                                        (''end_month'', dom_val env ''#endMonth'')]),
                  (''cloud_threshold'', Str (dom_text env ''#cloudValue''))]),
          (''results'', Obj results)]"

text \<open>
  \<^verbatim>\<open>currentAOI.name\<close> is read with no guard, after \<^verbatim>\<open>new Date().toISOString()\<close> and
  before anything else: on \<^verbatim>\<open>null\<close> it throws.
\<close>

definition downloadStatisticsReal :: "env \<Rightarrow> state \<Rightarrow> (js_error + unit) \<times> state" where
  "downloadStatisticsReal env s =
     (case currentAOI s of
        None \<Rightarrow> (Inl (TypeError ''Cannot read properties of null (reading name)''), s)
      | Some a \<Rightarrow>
          (let stats = build_stats env a (analysisResults s);
               dataStr = to_string (JSON_stringify2 stats);
               s1 = emit (Download (download_name (aoi_name a) (date_millis env)) dataStr) s;
               s2 = emit RevokeObjectURL s1
           in (Inr (), showAlert ''Statistics downloaded successfully!'' ''success'' s2)))"


section \<open>Awaiting\<close>

text \<open>
  The functions above are written with \<^verbatim>\<open>await\<close>, and were modelled so far as if the
  network answered at once. Here the waiting is explicit. An \<^verbatim>\<open>async\<close> function runs
  until it has finished, or until it awaits network calls it has sent and that have
  not settled yet: these calls are in flight. While it waits the rest of the page
  runs. When the \<open>i\<close>-th of the calls settles, the function resumes with the outcome,
  in the state the page is in by then.
\<close>

datatype 'a task =
    Finished "js_error + 'a" state
  | Waiting "ajax_settings list" state "nat \<Rightarrow> ajax_outcome \<Rightarrow> state \<Rightarrow> 'a task"

fun in_flight :: "'a task \<Rightarrow> ajax_settings list" where
  "in_flight (Finished r s) = []"
| "in_flight (Waiting calls s resume) = calls"

text \<open>The state in which the function finished or went to wait.\<close>

fun reached :: "'a task \<Rightarrow> state" where
  "reached (Finished r s) = s"
| "reached (Waiting calls s resume) = s"

text \<open>
  One call settles: its index among the calls in flight, its outcome, and the state of
  the page at that moment. A finished function is not waiting for anything.
\<close>

fun settle :: "'a task \<Rightarrow> nat \<times> ajax_outcome \<times> state \<Rightarrow> 'a task" where
  "settle (Finished r s) d = Finished r s"
| "settle (Waiting calls s resume) (i, outcome, s') = resume i outcome s'"

definition settled :: "'a task \<Rightarrow> (nat \<times> ajax_outcome \<times> state) list \<Rightarrow> 'a task" where
  "settled t ds = foldl settle t ds"

text \<open>A piece of code that does not wait.\<close>

definition finished :: "(js_error + 'a) \<times> state \<Rightarrow> 'a task" where
  "finished p = Finished (fst p) (snd p)"

text \<open>
  \<^verbatim>\<open>const x = await t; ...\<close>: the caller waits exactly while \<open>t\<close> does, then goes on with
  the value of \<open>t\<close>; an exception of \<open>t\<close> is thrown at the \<^verbatim>\<open>await\<close>. Awaiting a function
  that finished without waiting goes on at once: no call settles and no event handler
  of the page runs in between.
\<close>

primrec await :: "'a task \<Rightarrow> ('a \<Rightarrow> state \<Rightarrow> 'b task) \<Rightarrow> 'b task" where
  "await (Finished r s) f = (case r of Inl e \<Rightarrow> Finished (Inl e) s | Inr x \<Rightarrow> f x s)"
| "await (Waiting calls s resume) f =
     Waiting calls s (\<lambda>i outcome s'. await (resume i outcome s') f)"

text \<open>\<^verbatim>\<open>try { t } catch (error) { h }\<close> around code that may wait.\<close>

primrec handle :: "'a task \<Rightarrow> (js_error \<Rightarrow> state \<Rightarrow> 'a task) \<Rightarrow> 'a task" where
  "handle (Finished r s) h = (case r of Inl e \<Rightarrow> h e s | Inr x \<Rightarrow> Finished (Inr x) s)"
| "handle (Waiting calls s resume) h =
     Waiting calls s (\<lambda>i outcome s'. handle (resume i outcome s') h)"

text \<open>
  The function run to its end over the network of the environment, each call answered
  as soon as the function waits and with nothing else running meanwhile. The call just
  sent is the last one of the log, hence the \<open>- 1\<close>. A function that waits for no call
  at all never resumes: \<open>None\<close>.
\<close>

primrec run :: "env \<Rightarrow> 'a task \<Rightarrow> ((js_error + 'a) \<times> state) option" where
  "run env (Finished r s) = Some (r, s)"
| "run env (Waiting calls s resume) =
     (case calls of
        [] \<Rightarrow> None
      | call # others \<Rightarrow> run env (resume 0 (net env (sends (log s) - 1) call) s))"

text \<open>
  \<^verbatim>\<open>request\<close>, waiting: \<^verbatim>\<open>$.ajax\<close> is called, which sends the call, and the function
  awaits it; the rest runs when the outcome arrives.
\<close>

definition request_task :: "client \<Rightarrow> string \<Rightarrow> options \<Rightarrow> state \<Rightarrow> request_result task" where
  "request_task this endpoint options s =
     (case ajax_settings_of this endpoint options of
        Inl e \<Rightarrow> finished (request_catch (CaughtError e) s)
      | Inr settings \<Rightarrow>
          Waiting [settings] (emit (AjaxSend settings) s)
            (\<lambda>i outcome s'.
               let s2 = emit (AjaxSettle outcome) s'
               in case outcome of
                    Resolved response \<Rightarrow> Finished (Inr (Success response)) s2
                  | Rejected x \<Rightarrow> finished (request_catch (CaughtXHR x) s2)))"

definition analyzeVegetation_task ::
  "client \<Rightarrow> request_data \<Rightarrow> state \<Rightarrow> request_result task" where
  "analyzeVegetation_task this params s =
     request_task this ''/analyze/vegetation'' (post_options params) s"

definition analyzeLandCover_task ::
  "client \<Rightarrow> request_data \<Rightarrow> state \<Rightarrow> request_result task" where
  "analyzeLandCover_task this params s =
     request_task this ''/analyze/landcover'' (post_options params) s"

text \<open>
  \<^verbatim>\<open>runVegetationAnalysisAPI\<close> and \<^verbatim>\<open>runLandCoverAnalysisAPI\<close>, waiting: everything after
  \<^verbatim>\<open>const response = await apiClient.analyzeVegetation(params);\<close> runs when the response
  is there.
\<close>

definition runVegetationAnalysisAPI_task :: "env \<Rightarrow> state \<Rightarrow> jsval task" where
  "runVegetationAnalysisAPI_task env s =
     (case currentAOI s of
        None \<Rightarrow> Finished (Inr Null) (showAlert ''Please select an AOI first'' ''warning'' s)
      | Some a \<Rightarrow>
          (let s1 = showLoading ''Analyzing vegetation indices...''
                      ''Processing Sentinel-2 imagery'' s;
               params = vegetation_params env a
           in await (analyzeVegetation_task (apiClient (config env)) (Json params) s1)
                (\<lambda>response s2.
                   let s3 = hideLoading s2
                   in if res_success response then
                        (case get_prop (res_data response) ''collection_size'' of
                           Inl e \<Rightarrow> Finished (Inl e) s3
                         | Inr n \<Rightarrow>
                             Finished (Inr (res_data response))
                               (showAlert (''Analysis complete! Found '' @ to_string n @ '' images'')
                                  ''success'' s3))
                      else Finished (Inr Null)
                             (showAlert (''Vegetation analysis failed: '' @
                                           to_string (res_error response)) ''danger'' s3))))"

definition runLandCoverAnalysisAPI_task :: "env \<Rightarrow> state \<Rightarrow> jsval task" where
  "runLandCoverAnalysisAPI_task env s =
     (case currentAOI s of
        None \<Rightarrow> Finished (Inr Null) (showAlert ''Please select an AOI first'' ''warning'' s)
      | Some a \<Rightarrow>
          (let s1 = showLoading ''Analyzing land cover...'' ''Processing land cover datasets'' s;
               params = landcover_params env a
           in await (analyzeLandCover_task (apiClient (config env)) (Json params) s1)
                (\<lambda>response s2.
                   let s3 = hideLoading s2
                   in if res_success response then
                        Finished (Inr (res_data response))
                          (showAlert ''Land cover analysis complete!'' ''success'' s3)
                      else Finished (Inr Null)
                             (showAlert (''Land cover analysis failed: '' @
                                           to_string (res_error response)) ''danger'' s3))))"

text \<open>
  \<^verbatim>\<open>runCompleteAnalysis\<close>, waiting: the two steps with their
  \<^verbatim>\<open>await runVegetationAnalysisAPI()\<close> and \<^verbatim>\<open>await runLandCoverAnalysisAPI()\<close>, the
  display, and the \<^verbatim>\<open>try\<close> around the three.
\<close>

definition vegetation_step_task :: "env \<Rightarrow> jsval \<Rightarrow> state \<Rightarrow> unit task" where
  "vegetation_step_task env analysisType s =
     (if analysisType = Str ''vegetation'' \<or> analysisType = Str ''combined'' then
        await (runVegetationAnalysisAPI_task env s)
          (\<lambda>vegData s1.
             if truthy vegData then finished (store_vegetation vegData s1)
             else Finished (Inr ()) s1)
      else Finished (Inr ()) s)"

definition landcover_step_task :: "env \<Rightarrow> jsval \<Rightarrow> state \<Rightarrow> unit task" where
  "landcover_step_task env analysisType s =
     (if analysisType = Str ''landcover'' \<or> analysisType = Str ''combined'' then
        await (runLandCoverAnalysisAPI_task env s)
          (\<lambda>lcData s1.
             if truthy lcData
             then Finished (Inr ())
                    (s1\<lparr>analysisResults := set_prop (analysisResults s1) ''landcover'' lcData\<rparr>)
             else Finished (Inr ()) s1)
      else Finished (Inr ()) s)"

definition complete_try_task :: "env \<Rightarrow> jsval \<Rightarrow> state \<Rightarrow> unit task" where
  "complete_try_task env analysisType s =
     await (vegetation_step_task env analysisType s)
       (\<lambda>u s1. await (landcover_step_task env analysisType s1)
                  (\<lambda>u s2. finished (display_step env s2)))"

definition runCompleteAnalysis_task :: "env \<Rightarrow> state \<Rightarrow> unit task" where
  "runCompleteAnalysis_task env s =
     (case currentAOI s of
        None \<Rightarrow> Finished (Inr ()) (showAlert ''Please select an AOI first'' ''warning'' s)
      | Some a \<Rightarrow>
          (let analysisType = dom_val env ''#analysisType'';
               s0 = s\<lparr>analysisResults := []\<rparr>
           in handle (complete_try_task env analysisType s0)
                (\<lambda>error s1.
                   Finished (Inr ())
                     (showAlert ''An error occurred during analysis'' ''danger''
                        (emit (ConsoleError ''Analysis error:'') s1)))))"

text \<open>
  A function that waits for one call at a time: whenever it waits, a single call is
  in flight, whatever the outcomes and whatever the page did meanwhile.
\<close>

inductive sequential :: "'a task \<Rightarrow> bool" where
  "sequential (Finished r s)"
| "(\<And>i outcome s'. sequential (resume i outcome s')) \<Longrightarrow> sequential (Waiting [call] s resume)"

text \<open>A function all of whose calls, now and later, satisfy \<open>P\<close>.\<close>

inductive calls_only :: "(ajax_settings \<Rightarrow> bool) \<Rightarrow> 'a task \<Rightarrow> bool" where
  "calls_only P (Finished r s)"
| "list_all P calls \<Longrightarrow> (\<And>i outcome s'. calls_only P (resume i outcome s')) \<Longrightarrow>
   calls_only P (Waiting calls s resume)"

section \<open>Notions used in the statements\<close>

text \<open>The events a run added to the log.\<close>

definition new_events :: "state \<Rightarrow> state \<Rightarrow> event list" where
  "new_events s s' = drop (length (log s)) (log s')"

definition hides :: "event list \<Rightarrow> nat" where
  "hides es = length (filter (\<lambda>e. e = HideLoading) es)"

text \<open>The addresses of the network calls of a log, in order.\<close>

fun send_url :: "event \<Rightarrow> string list" where
  "send_url (AjaxSend a) = [ajax_url a]"
| "send_url e = []"

definition send_urls :: "event list \<Rightarrow> string list" where
  "send_urls es = concat (map send_url es)"

text \<open>
  The events that belong to waiting for the response, as opposed to acting on it.
\<close>

fun is_waiting :: "event \<Rightarrow> bool" where
  "is_waiting (ShowLoading t u) = True"
| "is_waiting (AjaxSend a) = True"
| "is_waiting (AjaxSettle r) = True"
| "is_waiting (ConsoleError m) = True"
| "is_waiting e = False"

text \<open>The settings of the calls the endpoint methods make.\<close>

definition get_settings :: "client \<Rightarrow> string \<Rightarrow> ajax_settings" where
  "get_settings this endpoint =
     \<lparr>ajax_url = client_baseURL this @ endpoint, ajax_method = Str ''GET'',
      ajax_data = Undefined, ajax_contentType = Str ''application/json'',
      ajax_timeout = Num (client_timeout this), ajax_dataType = ''json''\<rparr>"

definition post_settings :: "client \<Rightarrow> string \<Rightarrow> jsval \<Rightarrow> ajax_settings" where
  "post_settings this endpoint params =
     \<lparr>ajax_url = client_baseURL this @ endpoint, ajax_method = Str ''POST'',
      ajax_data = (if truthy params then JSON_stringify params else Undefined),
      ajax_contentType = Str ''application/json'',
      ajax_timeout = Num (client_timeout this), ajax_dataType = ''json''\<rparr>"

definition vegetation_call :: "env \<Rightarrow> aoi \<Rightarrow> ajax_settings" where
  "vegetation_call env a =
     post_settings (apiClient (config env)) ''/analyze/vegetation'' (vegetation_params env a)"

definition landcover_call :: "env \<Rightarrow> aoi \<Rightarrow> ajax_settings" where
  "landcover_call env a =
     post_settings (apiClient (config env)) ''/analyze/landcover'' (landcover_params env a)"

definition geometry_call :: "env \<Rightarrow> jsval \<Rightarrow> jsval \<Rightarrow> ajax_settings" where
  "geometry_call env endpoint code =
     get_settings (apiClient (config env))
       (''/regions/geometry?endpoint='' @ to_string endpoint @ ''&code='' @ to_string code)"


text \<open>Which sub-analyses an analysis type asks for.\<close>

definition wants_vegetation :: "jsval \<Rightarrow> bool" where
  "wants_vegetation ty = (ty = Str ''vegetation'' \<or> ty = Str ''combined'')"




text \<open>A successful response without a body to read a property from.\<close>

fun bodiless :: "ajax_outcome \<Rightarrow> bool" where
  "bodiless (Resolved d) = (d = Null \<or> d = Undefined)"
| "bodiless (Rejected x) = False"


fun is_show :: "event \<Rightarrow> bool" where
  "is_show (ShowLoading t u) = True"
| "is_show e = False"

fun is_settle :: "event \<Rightarrow> bool" where
  "is_settle (AjaxSettle r) = True"
| "is_settle e = False"

fun is_logged :: "event \<Rightarrow> bool" where
  "is_logged (ConsoleError m) = True"
| "is_logged e = False"

text \<open>
  Waiting for a response, from start to end: the indicator is shown, one call is
  sent, its outcome arrives, and the wrapper logs the failure when there is one.
\<close>

definition awaited :: "event list \<Rightarrow> bool" where
  "awaited es =
     (case es of
        e1 # e2 # e3 # rest \<Rightarrow>
          is_show e1 \<and> is_send e2 \<and> is_settle e3 \<and> list_all is_logged rest \<and> length rest \<le> 1
      | _ \<Rightarrow> False)"

text \<open>
  The indicator is hidden once, after the response and before the response is acted
  on: what comes before the first hide is exactly the waiting for one response, and
  what comes after it neither hides again nor waits.
\<close>

definition hidden_once_after_response :: "event list \<Rightarrow> bool" where
  "hidden_once_after_response es =
     (let before = takeWhile (\<lambda>e. e \<noteq> HideLoading) es;
          after = drop (Suc (length before)) es
      in hides es = 1 \<and> awaited before \<and>
         list_all (\<lambda>e. e \<noteq> HideLoading \<and> \<not> is_waiting e) after)"

text \<open>
  Options with which the settings object can be built: data that \<^verbatim>\<open>JSON.stringify\<close>
  accepts, and headers that were not overridden with \<^verbatim>\<open>null\<close> or \<^verbatim>\<open>undefined\<close>.
\<close>

definition builds_settings :: "options \<Rightarrow> bool" where
  "builds_settings options =
     (opt_data options \<noteq> Some Unserializable \<and>
      opt_headers options \<noteq> Some Null \<and> opt_headers options \<noteq> Some Undefined)"

text \<open>
  Every run of whitespace replaced by a single underscore, read left to right: a
  whitespace character becomes an underscore when it starts a run and disappears when
  it continues one; every other character stays.
\<close>

fun squeeze :: "bool \<Rightarrow> string \<Rightarrow> string" where
  "squeeze in_run [] = []"
| "squeeze in_run (c # cs) =
     (if is_space c then (if in_run then squeeze True cs else CHR ''_'' # squeeze True cs)
      else c # squeeze False cs)"

definition underscore_runs :: "string \<Rightarrow> string" where
  "underscore_runs name = squeeze False name"

text \<open>The files a log offers for download: name and content.\<close>

fun download_of :: "event \<Rightarrow> (string \<times> string) list" where
  "download_of (Download name content) = [(name, content)]"
| "download_of e = []"

definition downloads :: "event list \<Rightarrow> (string \<times> string) list" where
  "downloads es = concat (map download_of es)"

text \<open>The \<^verbatim>\<open>region\<close> field of a parsed text; \<open>None\<close> when the text does not parse.\<close>

definition parsed_region :: "string \<Rightarrow> (js_error + jsval) option" where
  "parsed_region content =
     (case JSON_parse content of None \<Rightarrow> None | Some v \<Rightarrow> Some (get_prop v ''region''))"

definition vegetation_url :: "env \<Rightarrow> string" where
  "vegetation_url env = client_baseURL (apiClient (config env)) @ ''/analyze/vegetation''"

definition landcover_url :: "env \<Rightarrow> string" where
  "landcover_url env = client_baseURL (apiClient (config env)) @ ''/analyze/landcover''"

text \<open>
  The error text of a rejected call: the first truthy value among the \<^verbatim>\<open>error\<close> field
  of the JSON error body and the status text, else the generic string.
\<close>

definition error_text :: "jqxhr \<Rightarrow> jsval" where
  "error_text x =
     (let e = get_prop_opt (responseJSON x) ''error''
      in if truthy e then e
         else if statusText x \<noteq> [] then Str (statusText x)
         else Str ''Network error'')"

text \<open>
  The same choice by presence instead: the \<^verbatim>\<open>error\<close> field whenever the JSON error
  body has one, whatever its value.
\<close>

definition error_text_by_presence :: "jqxhr \<Rightarrow> jsval" where
  "error_text_by_presence x =
     (case responseJSON x of
        Obj kvs \<Rightarrow>
          (case map_of kvs ''error'' of
             Some e \<Rightarrow> e
           | None \<Rightarrow> if statusText x \<noteq> [] then Str (statusText x) else Str ''Network error'')
      | v \<Rightarrow> if statusText x \<noteq> [] then Str (statusText x) else Str ''Network error'')"

section \<open>Concrete inputs\<close>

definition s_init :: state where
  "s_init = \<lparr>currentAOI = None, analysisResults = [], drawnItems = [], log = []\<rparr>"

definition jakarta_bounds :: bounds where
  "jakarta_bounds = \<lparr>getWest = Num 106, getSouth = Num (- 7), getEast = Num 107, getNorth = Num (- 6)\<rparr>"

definition jakarta :: aoi where
  "jakarta = \<lparr>aoi_type = ''admin'', aoi_name = ''DKI  Jakarta'', aoi_geometry = jakarta_bounds,
              aoi_area = Num 662, aoi_geojson = Obj [(''type'', Str ''FeatureCollection'')]\<rparr>"

definition s_jakarta :: state where
  "s_jakarta = s_init\<lparr>currentAOI := Some jakarta\<rparr>"

text \<open>A page whose form controls hold the given analysis type, over a given network.\<close>

definition page :: "string \<Rightarrow> (nat \<Rightarrow> ajax_settings \<Rightarrow> ajax_outcome) \<Rightarrow> env" where
  "page analysisType network =
     \<lparr>config = API_CONFIG,
      net = network,
      parseInt = (\<lambda>v. case v of Str t \<Rightarrow> if t \<noteq> [] \<and> list_all is_digit t
                                         then Num (int (read_nat t)) else NaN
                           | Num n \<Rightarrow> Num n
                           | _ \<Rightarrow> NaN),
      dom_text = (\<lambda>sel. if sel = ''#yearValue'' then ''2023''
                         else if sel = ''#cloudValue'' then ''20''
                         else if sel = ''#provinceSelect option:selected'' then ''DKI Jakarta''
                         else []),
      dom_val = (\<lambda>sel. if sel = ''#analysisType'' then Str analysisType
                        else if sel = ''#startMonth'' then Str ''1''
                        else if sel = ''#endMonth'' then Str ''12''
                        else if sel = ''#dwMode'' then Str ''mode''
                        else Undefined),
      dom_checked = (\<lambda>sel. sel = ''#dynamicWorld''),
      selectedIndices = Arr [Str ''NDVI''],
      L_geoJSON = (\<lambda>g. Inr \<lparr>layer_geojson = g, layer_bounds = Some jakarta_bounds\<rparr>),
      calculateAreaFromBounds = (\<lambda>b. Num 662),
      resultsSection_top = Some 900,
      date_iso = ''2024-01-01T00:00:00.000Z'',
      date_millis = 1704067200000\<rparr>"

text \<open>Networks: every call fails the same way, or succeeds with the same body.\<close>

definition failing :: "jqxhr \<Rightarrow> nat \<Rightarrow> ajax_settings \<Rightarrow> ajax_outcome" where
  "failing x n st = Rejected x"

definition serving :: "jsval \<Rightarrow> nat \<Rightarrow> ajax_settings \<Rightarrow> ajax_outcome" where
  "serving d n st = Resolved d"


definition server_error :: jqxhr where
  "server_error = \<lparr>responseJSON = Obj [(''error'', Str ''Earth Engine quota exceeded'')],
                   statusText = ''INTERNAL SERVER ERROR''\<rparr>"

definition empty_error :: jqxhr where
  "empty_error = \<lparr>responseJSON = Obj [(''error'', Str [])],
                  statusText = ''INTERNAL SERVER ERROR''\<rparr>"

text \<open>
  A state with a region drawn on the map, and a page on which \<^verbatim>\<open>L.geoJSON\<close> throws on
  the empty object, as Leaflet does.
\<close>

definition jakarta_layer :: geo_layer where
  "jakarta_layer = \<lparr>layer_geojson = aoi_geojson jakarta, layer_bounds = Some jakarta_bounds\<rparr>"

definition s_drawn :: state where
  "s_drawn = s_jakarta\<lparr>drawnItems := [jakarta_layer]\<rparr>"

definition leaflet_page :: "(nat \<Rightarrow> ajax_settings \<Rightarrow> ajax_outcome) \<Rightarrow> env" where
  "leaflet_page network =
     (page ''combined'' network)
       \<lparr>L_geoJSON := (\<lambda>g. if g = Obj [] then Inl (Error ''Invalid GeoJSON object.'')
                           else Inr \<lparr>layer_geojson = g, layer_bounds = Some jakarta_bounds\<rparr>)\<rparr>"

definition vegetation_body :: jsval where
  "vegetation_body = Obj [(''indices'', Obj [(''NDVI'', Num 1)]),
                          (''rgb_tile_url'', Str ''https://tiles/{z}/{x}/{y}''),
                          (''collection_size'', Num 12)]"

text \<open>
  The state in which the composite analysis of the page below waits for its first
  call, started in \<open>s_jakarta\<close>.
\<close>

definition s_waiting :: state where
  "s_waiting = s_jakarta\<lparr>log :=
     [ShowLoading ''Analyzing vegetation indices...'' ''Processing Sentinel-2 imagery'',
      AjaxSend (vegetation_call (page ''combined'' (serving vegetation_body)) jakarta)]\<rparr>"

section \<open>Basic facts\<close>

lemma emit_log: "emit e s = s\<lparr>log := log s @ [e]\<rparr>" by (simp add: emit_def)

lemmas effects = emit_log showLoading_def hideLoading_def showAlert_def showAOIInfo_def
  displayResults_def

lemma sends_append: "sends (xs @ ys) = sends xs + sends ys" by (simp add: sends_def)

lemma sends_simps: "sends [] = 0" "sends (e # es) = (if is_send e then 1 else 0) + sends es"
  by (simp_all add: sends_def)

lemma hides_simps:
  "hides [] = 0" "hides (e # es) = (if e = HideLoading then 1 else 0) + hides es"
  "hides (xs @ ys) = hides xs + hides ys"
  by (simp_all add: hides_def)

lemma send_urls_simps:
  "send_urls [] = []" "send_urls (e # es) = send_url e @ send_urls es"
  "send_urls (xs @ ys) = send_urls xs @ send_urls ys"
  by (simp_all add: send_urls_def)

lemma settings_no_options: "ajax_settings_of c ep no_options = Inr (get_settings c ep)"
  by (simp add: ajax_settings_of_def no_options_def get_settings_def js_or_def)

lemma settings_post: "ajax_settings_of c ep (post_options (Json p)) = Inr (post_settings c ep p)"
  by (simp add: ajax_settings_of_def no_options_def post_options_def post_settings_def js_or_def)

lemma catch_xhr:
  "request_catch (CaughtXHR x) s =
     (Inr (Failure (error_text x)), s\<lparr>log := log s @ [ConsoleError ''API Request Error:'']\<rparr>)"
  by (simp add: request_catch_def error_text_def js_or_def emit_log Let_def)

lemma catch_error:
  "request_catch (CaughtError e) s =
     (Inr (Failure (Str ''Network error'')), s\<lparr>log := log s @ [ConsoleError ''API Request Error:'']\<rparr>)"
  by (simp add: request_catch_def js_or_def emit_log get_prop_opt_def)

lemma request_sent:
  "ajax_settings_of c ep opts = Inr st \<Longrightarrow>
   request env c ep opts s =
     (case net env (sends (log s)) st of
        Resolved d \<Rightarrow>
          (Inr (Success d), s\<lparr>log := log s @ [AjaxSend st, AjaxSettle (Resolved d)]\<rparr>)
      | Rejected x \<Rightarrow>
          (Inr (Failure (error_text x)),
           s\<lparr>log := log s @ [AjaxSend st, AjaxSettle (Rejected x),
                              ConsoleError ''API Request Error:'']\<rparr>))"
  by (simp add: request_def catch_xhr emit_log Let_def split: ajax_outcome.splits)

lemma request_unsent:
  "ajax_settings_of c ep opts = Inl e \<Longrightarrow>
   request env c ep opts s =
     (Inr (Failure (Str ''Network error'')), s\<lparr>log := log s @ [ConsoleError ''API Request Error:'']\<rparr>)"
  by (simp add: request_def catch_error)

lemma request_get:
  "request env c ep no_options s =
     (case net env (sends (log s)) (get_settings c ep) of
        Resolved d \<Rightarrow>
          (Inr (Success d), s\<lparr>log := log s @ [AjaxSend (get_settings c ep), AjaxSettle (Resolved d)]\<rparr>)
      | Rejected x \<Rightarrow>
          (Inr (Failure (error_text x)),
           s\<lparr>log := log s @ [AjaxSend (get_settings c ep), AjaxSettle (Rejected x),
                              ConsoleError ''API Request Error:'']\<rparr>))"
  by (rule request_sent) (rule settings_no_options)

lemma request_post:
  "request env c ep (post_options (Json p)) s =
     (case net env (sends (log s)) (post_settings c ep p) of
        Resolved d \<Rightarrow>
          (Inr (Success d), s\<lparr>log := log s @ [AjaxSend (post_settings c ep p), AjaxSettle (Resolved d)]\<rparr>)
      | Rejected x \<Rightarrow>
          (Inr (Failure (error_text x)),
           s\<lparr>log := log s @ [AjaxSend (post_settings c ep p), AjaxSettle (Rejected x),
                              ConsoleError ''API Request Error:'']\<rparr>))"
  by (rule request_sent) (rule settings_post)

lemma data_serialized:
  "d \<noteq> Some Unserializable \<Longrightarrow>
   \<exists>v. (if data_truthy (case d of None \<Rightarrow> Json Undefined | Some v \<Rightarrow> v)
         then stringify_data (case d of None \<Rightarrow> Json Undefined | Some v \<Rightarrow> v)
         else Inr Undefined) = Inr v"
proof (cases d)
  case None
  then show ?thesis by simp
next
  case (Some r)
  assume "d \<noteq> Some Unserializable"
  with Some show ?thesis by (cases r) simp_all
qed

lemma headers_read:
  "h \<noteq> Some Null \<Longrightarrow> h \<noteq> Some Undefined \<Longrightarrow>
   \<exists>v. get_prop (case h of None \<Rightarrow> Obj [(''Content-Type'', Str ''application/json'')] | Some v \<Rightarrow> v)
         ''Content-Type'' = Inr v"
proof (cases h)
  case None
  then show ?thesis by simp
next
  case (Some v)
  assume "h \<noteq> Some Null" "h \<noteq> Some Undefined"
  with Some show ?thesis by (cases v) simp_all
qed

lemma settings_built:
  assumes "builds_settings opts"
  shows "\<exists>st. ajax_settings_of c ep opts = Inr st"
proof -
  obtain v where v: "(if data_truthy (case opt_data opts of None \<Rightarrow> Json Undefined | Some v \<Rightarrow> v)
         then stringify_data (case opt_data opts of None \<Rightarrow> Json Undefined | Some v \<Rightarrow> v)
         else Inr Undefined) = Inr v"
    using data_serialized [of "opt_data opts"] assms by (auto simp: builds_settings_def)
  obtain w where w: "get_prop (case opt_headers opts of
        None \<Rightarrow> Obj [(''Content-Type'', Str ''application/json'')] | Some v \<Rightarrow> v)
         ''Content-Type'' = Inr w"
    using headers_read [of "opt_headers opts"] assms by (auto simp: builds_settings_def)
  show ?thesis
    by (simp add: ajax_settings_of_def Let_def v w)
qed

lemma request_sends_at_most_once:
  "sends (new_events s (snd (request env c ep opts s))) =
     (case ajax_settings_of c ep opts of Inl e \<Rightarrow> 0 | Inr st \<Rightarrow> 1)"
proof (cases "ajax_settings_of c ep opts")
  case (Inl e)
  then show ?thesis by (simp add: request_unsent new_events_def sends_simps)
next
  case (Inr st)
  then show ?thesis
    by (simp add: request_sent new_events_def sends_simps split: ajax_outcome.splits)
qed

lemma append_options_log:
  "append_options sel es s =
     s\<lparr>log := log s @ map (\<lambda>(n, c). AppendHtml sel (option_html (to_string c) n)) es\<rparr>"
  by (induction sel es s rule: append_options.induct) (simp_all add: emit_log)

lemma hides_append_options:
  "hides (map (\<lambda>(n, c). AppendHtml sel (option_html (to_string c) n)) es) = 0"
  by (induction es) (auto simp: hides_simps)

lemma acting_append_options:
  "list_all (\<lambda>e. e \<noteq> HideLoading \<and> \<not> is_waiting e)
     (map (\<lambda>(n, c). AppendHtml sel (option_html (to_string c) n)) es)"
  by (induction es) auto

lemma call_urls:
  "ajax_url (vegetation_call env a) = vegetation_url env"
  "ajax_url (landcover_call env a) = landcover_url env"
  by (simp_all add: vegetation_call_def landcover_call_def post_settings_def vegetation_url_def
      landcover_url_def)

lemma urls_differ: "vegetation_url env \<noteq> landcover_url env"
  by (simp add: vegetation_url_def landcover_url_def)


section \<open>The analysis functions, run\<close>

lemma vegetation_run:
  "runVegetationAnalysisAPI env s =
     (case currentAOI s of
        None \<Rightarrow> (Inr Null, s\<lparr>log := log s @ [ShowAlert ''Please select an AOI first'' ''warning'']\<rparr>)
      | Some a \<Rightarrow>
     (case net env (sends (log s)) (vegetation_call env a) of
        Resolved d \<Rightarrow>
          (case get_prop d ''collection_size'' of
             Inl e \<Rightarrow>
               (Inl e, s\<lparr>log := log s @
                  [ShowLoading ''Analyzing vegetation indices...'' ''Processing Sentinel-2 imagery'',
                   AjaxSend (vegetation_call env a), AjaxSettle (Resolved d), HideLoading]\<rparr>)
           | Inr n \<Rightarrow>
               (Inr d, s\<lparr>log := log s @
                  [ShowLoading ''Analyzing vegetation indices...'' ''Processing Sentinel-2 imagery'',
                   AjaxSend (vegetation_call env a), AjaxSettle (Resolved d), HideLoading,
                   ShowAlert (''Analysis complete! Found '' @ to_string n @ '' images'') ''success'']\<rparr>))
      | Rejected x \<Rightarrow>
          (Inr Null, s\<lparr>log := log s @
             [ShowLoading ''Analyzing vegetation indices...'' ''Processing Sentinel-2 imagery'',
              AjaxSend (vegetation_call env a), AjaxSettle (Rejected x),
              ConsoleError ''API Request Error:'', HideLoading,
              ShowAlert (''Vegetation analysis failed: '' @ to_string (error_text x)) ''danger'']\<rparr>)))"
  by (simp add: runVegetationAnalysisAPI_def analyzeVegetation_def request_post effects sends_append
      sends_simps Let_def vegetation_call_def
      split: ajax_outcome.splits sum.splits option.splits)

lemma landcover_run:
  "runLandCoverAnalysisAPI env s =
     (case currentAOI s of
        None \<Rightarrow> (Inr Null, s\<lparr>log := log s @ [ShowAlert ''Please select an AOI first'' ''warning'']\<rparr>)
      | Some a \<Rightarrow>
     (case net env (sends (log s)) (landcover_call env a) of
        Resolved d \<Rightarrow>
          (Inr d, s\<lparr>log := log s @
             [ShowLoading ''Analyzing land cover...'' ''Processing land cover datasets'',
              AjaxSend (landcover_call env a), AjaxSettle (Resolved d), HideLoading,
              ShowAlert ''Land cover analysis complete!'' ''success'']\<rparr>)
      | Rejected x \<Rightarrow>
          (Inr Null, s\<lparr>log := log s @
             [ShowLoading ''Analyzing land cover...'' ''Processing land cover datasets'',
              AjaxSend (landcover_call env a), AjaxSettle (Rejected x),
              ConsoleError ''API Request Error:'', HideLoading,
              ShowAlert (''Land cover analysis failed: '' @ to_string (error_text x)) ''danger'']\<rparr>)))"
  by (simp add: runLandCoverAnalysisAPI_def analyzeLandCover_def request_post effects sends_append
      sends_simps Let_def landcover_call_def
      split: ajax_outcome.splits sum.splits option.splits)

lemma no_aoi_complete:
  "currentAOI s = None \<Longrightarrow>
   runCompleteAnalysis env s = (Inr (), s\<lparr>log := log s @ [ShowAlert ''Please select an AOI first'' ''warning'']\<rparr>)"
  by (simp add: runCompleteAnalysis_def effects)

lemma store_vegetation_truthy:
  "truthy d \<Longrightarrow>
   store_vegetation d s =
     (Inr (), s\<lparr>analysisResults :=
        set_prop (set_prop (set_prop (analysisResults s) ''vegetation'' (get_prop_opt d ''indices''))
                    ''rgb_tile_url'' (get_prop_opt d ''rgb_tile_url''))
          ''collection_size'' (get_prop_opt d ''collection_size'')\<rparr>)"
  by (cases d) (simp_all add: store_vegetation_def get_prop_opt_def)




lemma bodiless_get_prop: "\<not> bodiless (Resolved d) \<Longrightarrow> get_prop d k = Inr (get_prop_opt d k)"
  by (cases d) (simp_all add: get_prop_opt_def)








lemma landcover_step_aoi:
  "currentAOI (snd (landcover_step env ty s)) = currentAOI s"
  by (simp add: landcover_step_def landcover_run
      split: option.splits ajax_outcome.splits sum.splits)




lemma provinces_hidden:
  "hidden_once_after_response (new_events s (snd (loadProvincesFromAPI env s)))"
  by (simp add: loadProvincesFromAPI_def getProvinces_def request_get effects sends_append
      sends_simps Let_def new_events_def hidden_once_after_response_def awaited_def hides_simps
      append_options_log hides_append_options acting_append_options
      split: ajax_outcome.splits sum.splits)

lemma cities_hidden:
  "hidden_once_after_response (new_events s (snd (loadCitiesFromAPI env code s)))"
  by (simp add: loadCitiesFromAPI_def getCities_def request_get effects sends_append
      sends_simps Let_def new_events_def hidden_once_after_response_def awaited_def hides_simps
      append_options_log hides_append_options acting_append_options
      split: ajax_outcome.splits sum.splits)

lemma region_hidden:
  "hidden_once_after_response (new_events s (snd (loadRegionGeometryFromAPI env ep code s)))"
  by (simp add: loadRegionGeometryFromAPI_def getRegionGeometry_def request_get effects sends_append
      sends_simps Let_def new_events_def hidden_once_after_response_def awaited_def hides_simps
      region_loaded_def
      split: ajax_outcome.splits sum.splits option.splits)

lemma vegetation_hidden:
  "currentAOI s = Some a \<Longrightarrow>
   hidden_once_after_response (new_events s (snd (runVegetationAnalysisAPI env s)))"
  by (simp add: runVegetationAnalysisAPI_def analyzeVegetation_def request_post effects sends_append
      sends_simps Let_def new_events_def hidden_once_after_response_def awaited_def hides_simps
      split: ajax_outcome.splits sum.splits option.splits)

lemma landcover_hidden:
  "currentAOI s = Some a \<Longrightarrow>
   hidden_once_after_response (new_events s (snd (runLandCoverAnalysisAPI env s)))"
  by (simp add: runLandCoverAnalysisAPI_def analyzeLandCover_def request_post effects sends_append
      sends_simps Let_def new_events_def hidden_once_after_response_def awaited_def hides_simps
      split: ajax_outcome.splits sum.splits option.splits)

section \<open>The analysis functions, awaited\<close>


lemma finished_pair [simp]: "finished (r, s) = Finished r s" by (simp add: finished_def)

lemma run_await:
  "run env (await t f) =
     (case run env t of
        None \<Rightarrow> None
      | Some (Inl e, s) \<Rightarrow> Some (Inl e, s)
      | Some (Inr x, s) \<Rightarrow> run env (f x s))"
proof (induction t)
  case (Finished r s)
  then show ?case by (cases r) simp_all
next
  case (Waiting calls s resume)
  show ?case by (cases calls) (simp_all add: Waiting.IH [OF rangeI rangeI rangeI])
qed

lemma run_handle:
  "run env (handle t h) =
     (case run env t of
        None \<Rightarrow> None
      | Some (Inl e, s) \<Rightarrow> run env (h e s)
      | Some (Inr x, s) \<Rightarrow> Some (Inr x, s))"
proof (induction t)
  case (Finished r s)
  then show ?case by (cases r) simp_all
next
  case (Waiting calls s resume)
  show ?case by (cases calls) (simp_all add: Waiting.IH [OF rangeI rangeI rangeI])
qed

lemma run_finished: "run env (finished p) = Some p" by (simp add: finished_def)

lemma run_request: "run env (request_task c ep opts s) = Some (request env c ep opts s)"
  by (simp add: request_task_def request_def run_finished emit_log sends_append sends_simps Let_def
      split: sum.splits ajax_outcome.splits)

lemma run_vegetation:
  "run env (runVegetationAnalysisAPI_task env s) = Some (runVegetationAnalysisAPI env s)"
  by (simp add: runVegetationAnalysisAPI_task_def runVegetationAnalysisAPI_def run_await
      analyzeVegetation_task_def analyzeVegetation_def run_request Let_def
      split: option.splits sum.splits prod.splits)

lemma run_landcover:
  "run env (runLandCoverAnalysisAPI_task env s) = Some (runLandCoverAnalysisAPI env s)"
  by (simp add: runLandCoverAnalysisAPI_task_def runLandCoverAnalysisAPI_def run_await
      analyzeLandCover_task_def analyzeLandCover_def run_request Let_def
      split: option.splits sum.splits prod.splits)

lemma run_vegetation_step:
  "run env (vegetation_step_task env ty s) = Some (vegetation_step env ty s)"
  by (simp add: vegetation_step_task_def vegetation_step_def run_await run_vegetation run_finished
      split: sum.splits prod.splits)

lemma run_landcover_step:
  "run env (landcover_step_task env ty s) = Some (landcover_step env ty s)"
  by (simp add: landcover_step_task_def landcover_step_def run_await run_landcover
      split: sum.splits prod.splits)

lemma run_complete_try:
  "run env (complete_try_task env ty s) = Some (complete_try env ty s)"
  by (simp add: complete_try_task_def complete_try_def run_await run_vegetation_step
      run_landcover_step run_finished split: sum.splits prod.splits)

lemma run_complete:
  "run env (runCompleteAnalysis_task env s) = Some (runCompleteAnalysis env s)"
  by (simp add: runCompleteAnalysis_task_def runCompleteAnalysis_def run_handle run_complete_try
      Let_def split: option.splits sum.splits prod.splits)


lemma sequential_finished: "sequential (finished p)"
  by (simp add: finished_def sequential.intros)

lemma sequential_await:
  "sequential t \<Longrightarrow> (\<And>x s. sequential (f x s)) \<Longrightarrow> sequential (await t f)"
proof (induction t rule: sequential.induct)
  case (1 r s)
  then show ?case by (cases r) (simp_all add: sequential.intros)
next
  case (2 resume call s)
  then show ?case by (simp add: sequential.intros)
qed

lemma sequential_handle:
  "sequential t \<Longrightarrow> (\<And>e s. sequential (h e s)) \<Longrightarrow> sequential (handle t h)"
proof (induction t rule: sequential.induct)
  case (1 r s)
  then show ?case by (cases r) (simp_all add: sequential.intros)
next
  case (2 resume call s)
  then show ?case by (simp add: sequential.intros)
qed

lemma sequential_request: "sequential (request_task c ep opts s)"
  by (auto simp: request_task_def Let_def intro!: sequential.intros sequential_finished
      split: sum.splits ajax_outcome.splits)

lemma sequential_vegetation: "sequential (runVegetationAnalysisAPI_task env s)"
  by (auto simp: runVegetationAnalysisAPI_task_def analyzeVegetation_task_def Let_def
      intro!: sequential.intros sequential_await sequential_request
      split: option.splits sum.splits)

lemma sequential_landcover: "sequential (runLandCoverAnalysisAPI_task env s)"
  by (auto simp: runLandCoverAnalysisAPI_task_def analyzeLandCover_task_def Let_def
      intro!: sequential.intros sequential_await sequential_request
      split: option.splits sum.splits)

lemma sequential_complete: "sequential (runCompleteAnalysis_task env s)"
  by (auto simp: runCompleteAnalysis_task_def complete_try_task_def vegetation_step_task_def
      landcover_step_task_def Let_def
      intro!: sequential.intros sequential_await sequential_handle sequential_finished
        sequential_vegetation sequential_landcover
      split: option.splits)

text \<open>Two calls in flight at once is what the notion excludes.\<close>

lemma overlap_not_sequential: "\<not> sequential (Waiting (a # b # calls) s resume)"
  by (auto elim: sequential.cases)

lemma sequential_settle: "sequential t \<Longrightarrow> sequential (settle t d)"
  by (induction t rule: sequential.induct) (cases d, simp_all add: sequential.intros)+

lemma sequential_settled: "sequential t \<Longrightarrow> sequential (settled t ds)"
  unfolding settled_def by (induction ds arbitrary: t) (simp_all add: sequential_settle)

lemma sequential_in_flight: "sequential t \<Longrightarrow> length (in_flight t) \<le> 1"
  by (induction t rule: sequential.induct) simp_all

lemma calls_only_finished: "calls_only P (finished p)"
  by (simp add: finished_def calls_only.intros)

lemma calls_only_await:
  "calls_only P t \<Longrightarrow> (\<And>x s. calls_only P (f x s)) \<Longrightarrow> calls_only P (await t f)"
proof (induction t rule: calls_only.induct)
  case (1 P r s)
  then show ?case by (cases r) (simp_all add: calls_only.intros)
next
  case (2 P calls resume s)
  then show ?case by (simp add: calls_only.intros)
qed

lemma calls_only_handle:
  "calls_only P t \<Longrightarrow> (\<And>e s. calls_only P (h e s)) \<Longrightarrow> calls_only P (handle t h)"
proof (induction t rule: calls_only.induct)
  case (1 P r s)
  then show ?case by (cases r) (simp_all add: calls_only.intros)
next
  case (2 P calls resume s)
  then show ?case by (simp add: calls_only.intros)
qed

lemma calls_only_settle: "calls_only P t \<Longrightarrow> calls_only P (settle t d)"
  by (induction t rule: calls_only.induct) (cases d, simp_all add: calls_only.intros)+

lemma calls_only_settled: "calls_only P t \<Longrightarrow> calls_only P (settled t ds)"
  unfolding settled_def by (induction ds arbitrary: t) (simp_all add: calls_only_settle)

lemma calls_only_in_flight: "calls_only P t \<Longrightarrow> list_all P (in_flight t)"
  by (induction t rule: calls_only.induct) simp_all

lemma calls_only_request:
  "(\<And>st. ajax_settings_of c ep opts = Inr st \<Longrightarrow> P st) \<Longrightarrow> calls_only P (request_task c ep opts s)"
  by (auto simp: request_task_def Let_def intro!: calls_only.intros calls_only_finished
      split: sum.splits ajax_outcome.splits)

lemma calls_only_vegetation:
  "calls_only (\<lambda>c. ajax_url c = vegetation_url env) (runVegetationAnalysisAPI_task env s)"
  by (auto simp: runVegetationAnalysisAPI_task_def analyzeVegetation_task_def Let_def
      settings_post post_settings_def vegetation_url_def
      intro!: calls_only.intros calls_only_await calls_only_request
      split: option.splits sum.splits)

lemma calls_only_landcover:
  "calls_only (\<lambda>c. ajax_url c = landcover_url env) (runLandCoverAnalysisAPI_task env s)"
  by (auto simp: runLandCoverAnalysisAPI_task_def analyzeLandCover_task_def Let_def
      settings_post post_settings_def landcover_url_def
      intro!: calls_only.intros calls_only_await calls_only_request
      split: option.splits sum.splits)

lemma calls_only_landcover_step:
  "calls_only (\<lambda>c. ajax_url c = landcover_url env) (landcover_step_task env ty s)"
  by (auto simp: landcover_step_task_def
      intro!: calls_only.intros calls_only_await calls_only_landcover)


lemma settle_await:
  "in_flight t \<noteq> [] \<Longrightarrow> settle (await t f) d = await (settle t d) f"
  by (cases t; cases d) simp_all

lemma settle_handle:
  "in_flight t \<noteq> [] \<Longrightarrow> settle (handle t h) d = handle (settle t d) h"
  by (cases t; cases d) simp_all

lemma in_flight_await:
  "in_flight t \<noteq> [] \<Longrightarrow> in_flight (await t f) = in_flight t"
  by (cases t) simp_all

lemma in_flight_handle:
  "in_flight t \<noteq> [] \<Longrightarrow> in_flight (handle t h) = in_flight t"
  by (cases t) simp_all

lemma reached_await:
  "in_flight t \<noteq> [] \<Longrightarrow> reached (await t f) = reached t"
  by (cases t) simp_all

lemma reached_handle:
  "in_flight t \<noteq> [] \<Longrightarrow> reached (handle t h) = reached t"
  by (cases t) simp_all

lemma vegetation_task_sent:
  "currentAOI s = Some a \<Longrightarrow>
   in_flight (runVegetationAnalysisAPI_task env s) = [vegetation_call env a] \<and>
   reached (runVegetationAnalysisAPI_task env s) =
     s\<lparr>log := log s @ [ShowLoading ''Analyzing vegetation indices...'' ''Processing Sentinel-2 imagery'',
                        AjaxSend (vegetation_call env a)]\<rparr>"
  by (simp add: runVegetationAnalysisAPI_task_def analyzeVegetation_task_def request_task_def
      settings_post vegetation_call_def effects Let_def)

lemma landcover_task_sent:
  "currentAOI s = Some a \<Longrightarrow>
   in_flight (runLandCoverAnalysisAPI_task env s) = [landcover_call env a] \<and>
   reached (runLandCoverAnalysisAPI_task env s) =
     s\<lparr>log := log s @ [ShowLoading ''Analyzing land cover...'' ''Processing land cover datasets'',
                        AjaxSend (landcover_call env a)]\<rparr>"
  by (simp add: runLandCoverAnalysisAPI_task_def analyzeLandCover_task_def request_task_def
      settings_post landcover_call_def effects Let_def)

lemma vegetation_task_resumed:
  "currentAOI s = Some a \<Longrightarrow>
   settle (runVegetationAnalysisAPI_task env s) (i, outcome, s') =
     (case outcome of
        Resolved d \<Rightarrow>
          (case get_prop d ''collection_size'' of
             Inl e \<Rightarrow> Finished (Inl e) (s'\<lparr>log := log s' @ [AjaxSettle outcome, HideLoading]\<rparr>)
           | Inr n \<Rightarrow>
               Finished (Inr d)
                 (s'\<lparr>log := log s' @
                    [AjaxSettle outcome, HideLoading,
                     ShowAlert (''Analysis complete! Found '' @ to_string n @ '' images'') ''success'']\<rparr>))
      | Rejected x \<Rightarrow>
          Finished (Inr Null)
            (s'\<lparr>log := log s' @
               [AjaxSettle outcome, ConsoleError ''API Request Error:'', HideLoading,
                ShowAlert (''Vegetation analysis failed: '' @ to_string (error_text x)) ''danger'']\<rparr>))"
  by (simp add: runVegetationAnalysisAPI_task_def analyzeVegetation_task_def request_task_def
      settings_post effects Let_def catch_xhr split: ajax_outcome.splits sum.splits)

lemma no_calls_after_vegetation:
  "calls_only P (settle (runVegetationAnalysisAPI_task env s) d)"
proof (cases "currentAOI s")
  case None
  then show ?thesis by (simp add: runVegetationAnalysisAPI_task_def calls_only.intros)
next
  case (Some a)
  obtain i outcome s' where d: "d = (i, outcome, s')" by (cases d)
  show ?thesis
    unfolding d vegetation_task_resumed [OF Some]
    by (simp add: calls_only.intros split: ajax_outcome.splits sum.splits)
qed

lemma calls_after_first:
  "calls_only (\<lambda>c. ajax_url c = landcover_url env) (settle (runCompleteAnalysis_task env s) d)"
proof (cases "currentAOI s")
  case None
  then show ?thesis by (simp add: runCompleteAnalysis_task_def calls_only.intros)
next
  case (Some a)
  define ty where "ty = dom_val env ''#analysisType''"
  define s0 where "s0 = s\<lparr>analysisResults := []\<rparr>"
  let ?P = "\<lambda>c. ajax_url c = landcover_url env"
  let ?h = "\<lambda>error s1. Finished (Inr ())
                     (showAlert ''An error occurred during analysis'' ''danger''
                        (emit (ConsoleError ''Analysis error:'') s1))"
  let ?rest = "\<lambda>u s1. await (landcover_step_task env ty s1) (\<lambda>u s2. finished (display_step env s2))"
  have root: "runCompleteAnalysis_task env s = handle (await (vegetation_step_task env ty s0) ?rest) ?h"
    using Some by (simp add: runCompleteAnalysis_task_def complete_try_task_def ty_def s0_def Let_def)
  have rest: "\<And>u s1. calls_only ?P (?rest u s1)"
    by (intro calls_only_await calls_only_landcover_step calls_only_finished)
  have h: "\<And>e s1. calls_only ?P (?h e s1)" by (simp add: calls_only.intros)
  have a0: "currentAOI s0 = Some a" using Some by (simp add: s0_def)
  show ?thesis
  proof (cases "wants_vegetation ty")
    case False
    then have "vegetation_step_task env ty s0 = Finished (Inr ()) s0"
      by (simp add: vegetation_step_task_def wants_vegetation_def)
    then have "calls_only ?P (runCompleteAnalysis_task env s)"
      unfolding root by (auto intro!: calls_only_handle calls_only_await rest h calls_only.intros)
    then show ?thesis by (rule calls_only_settle)
  next
    case True
    let ?keep = "\<lambda>vegData s1. if truthy vegData then finished (store_vegetation vegData s1)
             else Finished (Inr ()) s1"
    have step: "vegetation_step_task env ty s0 = await (runVegetationAnalysisAPI_task env s0) ?keep"
      using True by (simp add: vegetation_step_task_def wants_vegetation_def)
    have fl: "in_flight (runVegetationAnalysisAPI_task env s0) \<noteq> []"
      using vegetation_task_sent [OF a0, of env] by simp
    have "settle (runCompleteAnalysis_task env s) d =
            handle (await (await (settle (runVegetationAnalysisAPI_task env s0) d) ?keep) ?rest) ?h"
      unfolding root step using fl
      by (simp add: settle_handle settle_await in_flight_await)
    moreover have "calls_only ?P (settle (runVegetationAnalysisAPI_task env s0) d)"
      by (rule no_calls_after_vegetation)
    moreover have "\<And>v s1. calls_only ?P (?keep v s1)"
      by (simp add: calls_only.intros calls_only_finished)
    ultimately show ?thesis
      by (auto intro!: calls_only_handle calls_only_await rest h)
  qed
qed

lemma complete_task_sent:
  assumes "currentAOI s = Some a" "wants_vegetation (dom_val env ''#analysisType'')"
  shows "in_flight (runCompleteAnalysis_task env s) = [vegetation_call env a] \<and>
         reached (runCompleteAnalysis_task env s) =
           s\<lparr>analysisResults := [],
              log := log s @
                [ShowLoading ''Analyzing vegetation indices...'' ''Processing Sentinel-2 imagery'',
                 AjaxSend (vegetation_call env a)]\<rparr>"
proof -
  define s0 where "s0 = s\<lparr>analysisResults := []\<rparr>"
  have a0: "currentAOI s0 = Some a" using assms by (simp add: s0_def)
  have fl: "in_flight (runVegetationAnalysisAPI_task env s0) \<noteq> []"
    using vegetation_task_sent [OF a0, of env] by simp
  show ?thesis
    using assms vegetation_task_sent [OF a0, of env] fl
    by (simp add: runCompleteAnalysis_task_def complete_try_task_def vegetation_step_task_def
        wants_vegetation_def [symmetric] Let_def s0_def [symmetric]
        in_flight_await in_flight_handle reached_await reached_handle)
       (simp add: s0_def)
qed

lemma calls_at_first:
  "list_all (\<lambda>c. ajax_url c = (if wants_vegetation (dom_val env ''#analysisType'')
                                 then vegetation_url env else landcover_url env))
     (in_flight (runCompleteAnalysis_task env s))"
proof (cases "currentAOI s")
  case None
  then show ?thesis by (simp add: runCompleteAnalysis_task_def)
next
  case (Some a)
  show ?thesis
  proof (cases "wants_vegetation (dom_val env ''#analysisType'')")
    case True
    then show ?thesis using complete_task_sent [OF Some True] by (simp add: call_urls)
  next
    case False
    have "calls_only (\<lambda>c. ajax_url c = landcover_url env) (runCompleteAnalysis_task env s)"
      using Some False
      by (auto simp: runCompleteAnalysis_task_def complete_try_task_def vegetation_step_task_def
          wants_vegetation_def Let_def
          intro!: calls_only_handle calls_only_await calls_only_landcover_step calls_only_finished
            calls_only.intros)
    then show ?thesis using False by (simp add: calls_only_in_flight)
  qed
qed

lemma complete_task_resumed:
  assumes aoi: "currentAOI s = Some a" and aoi': "currentAOI s' = Some a'"
    and ty: "dom_val env ''#analysisType'' = Str ''combined''"
    and body: "\<not> bodiless outcome"
  shows "in_flight (settle (runCompleteAnalysis_task env s) (i, outcome, s')) =
           [landcover_call env a'] \<and>
         new_events s' (reached (settle (runCompleteAnalysis_task env s) (i, outcome, s'))) =
           (case outcome of
              Resolved d \<Rightarrow>
                [AjaxSettle outcome, HideLoading,
                 ShowAlert (''Analysis complete! Found '' @
                              to_string (get_prop_opt d ''collection_size'') @ '' images'') ''success'']
            | Rejected x \<Rightarrow>
                [AjaxSettle outcome, ConsoleError ''API Request Error:'', HideLoading,
                 ShowAlert (''Vegetation analysis failed: '' @ to_string (error_text x)) ''danger'']) @
           [ShowLoading ''Analyzing land cover...'' ''Processing land cover datasets'',
            AjaxSend (landcover_call env a')]"
proof -
  define s0 where "s0 = s\<lparr>analysisResults := []\<rparr>"
  let ?h = "\<lambda>error s1. Finished (Inr ())
                     (showAlert ''An error occurred during analysis'' ''danger''
                        (emit (ConsoleError ''Analysis error:'') s1))"
  let ?show = "\<lambda>u s2. finished (display_step env s2)"
  let ?keep_lc = "\<lambda>lcData s1.
             if truthy lcData
             then Finished (Inr ())
                    (s1\<lparr>analysisResults := set_prop (analysisResults s1) ''landcover'' lcData\<rparr>)
             else Finished (Inr ()) s1"
  let ?rest = "\<lambda>u s1. await (await (runLandCoverAnalysisAPI_task env s1) ?keep_lc) ?show"
  let ?keep = "\<lambda>vegData s1. if truthy vegData then finished (store_vegetation vegData s1)
             else Finished (Inr ()) s1"
  have a0: "currentAOI s0 = Some a" using aoi by (simp add: s0_def)
  have fl: "in_flight (runVegetationAnalysisAPI_task env s0) \<noteq> []"
    using vegetation_task_sent [OF a0, of env] by simp
  have root: "runCompleteAnalysis_task env s =
      handle (await (await (runVegetationAnalysisAPI_task env s0) ?keep) ?rest) ?h"
    using aoi ty
    by (simp add: runCompleteAnalysis_task_def complete_try_task_def vegetation_step_task_def
        landcover_step_task_def s0_def Let_def)
  have resumed: "settle (runCompleteAnalysis_task env s) (i, outcome, s') =
      handle (await (await (settle (runVegetationAnalysisAPI_task env s0) (i, outcome, s')) ?keep)
                ?rest) ?h"
    unfolding root using fl by (simp add: settle_handle settle_await in_flight_await)
  have sent: "in_flight (handle (?rest () s1) ?h) = [landcover_call env a'] \<and>
      reached (handle (?rest () s1) ?h) =
        s1\<lparr>log := log s1 @ [ShowLoading ''Analyzing land cover...'' ''Processing land cover datasets'',
                             AjaxSend (landcover_call env a')]\<rparr>"
    if s1: "currentAOI s1 = Some a'" for s1 :: state
  proof -
    have "in_flight (runLandCoverAnalysisAPI_task env s1) \<noteq> []"
      using landcover_task_sent [OF s1, of env] by simp
    then show ?thesis
      using landcover_task_sent [OF s1, of env]
      by (simp add: in_flight_await in_flight_handle reached_await reached_handle)
  qed
  show ?thesis
  proof (cases outcome)
    case (Resolved d)
    then have nb: "\<not> bodiless (Resolved d)" using body by simp
    define s1 where "s1 = s'\<lparr>log := log s' @
                    [AjaxSettle outcome, HideLoading,
                     ShowAlert (''Analysis complete! Found '' @
                                  to_string (get_prop_opt d ''collection_size'') @ '' images'')
                       ''success'']\<rparr>"
    have v: "settle (runVegetationAnalysisAPI_task env s0) (i, outcome, s') = Finished (Inr d) s1"
      unfolding vegetation_task_resumed [OF a0]
      by (simp add: Resolved bodiless_get_prop [OF nb] s1_def)
    obtain s2 where s2: "?keep d s1 = Finished (Inr ()) s2" "currentAOI s2 = Some a'"
        "log s2 = log s1"
      using aoi' by (cases "truthy d") (simp_all add: store_vegetation_truthy s1_def)
    have "settle (runCompleteAnalysis_task env s) (i, outcome, s') = handle (?rest () s2) ?h"
      unfolding resumed v using s2(1) by simp
    then show ?thesis
      using sent [OF s2(2)] s2(3) by (simp add: Resolved s1_def new_events_def)
  next
    case (Rejected x)
    define s1 where "s1 = s'\<lparr>log := log s' @
               [AjaxSettle outcome, ConsoleError ''API Request Error:'', HideLoading,
                ShowAlert (''Vegetation analysis failed: '' @ to_string (error_text x)) ''danger'']\<rparr>"
    have v: "settle (runVegetationAnalysisAPI_task env s0) (i, outcome, s') = Finished (Inr Null) s1"
      unfolding vegetation_task_resumed [OF a0] by (simp add: Rejected s1_def)
    have s1: "currentAOI s1 = Some a'" using aoi' by (simp add: s1_def)
    have "settle (runCompleteAnalysis_task env s) (i, outcome, s') = handle (?rest () s1) ?h"
      unfolding resumed v by simp
    then show ?thesis
      using sent [OF s1] by (simp add: Rejected s1_def new_events_def)
  qed
qed

section \<open>Reading back what the serialiser prints\<close>

lemma hex_value_digit: "d < 16 \<Longrightarrow> hex_value (hex_digit d) = Some d"
  by (auto simp: hex_value_def hex_digit_def Let_def)

lemma unicode_escape_low:
  "(of_char c :: nat) < 32 \<Longrightarrow>
   unicode_escape [CHR ''0'', CHR ''0'', hex_digit (of_char c div 16), hex_digit (of_char c mod 16)] = Some c"
proof -
  assume a: "(of_char c :: nat) < 32"
  have z: "hex_value (CHR ''0'') = Some 0" by (simp add: hex_value_def)
  have h1: "hex_value (hex_digit (of_char c div 16)) = Some (of_char c div 16)"
    using a by (intro hex_value_digit) simp
  have h2: "hex_value (hex_digit (of_char c mod 16)) = Some (of_char c mod 16)"
    by (intro hex_value_digit) simp
  show ?thesis by (simp add: unicode_escape_def z h1 h2)
qed

lemma parse_chars_quote_char:
  "parse_chars (quote_char c @ X) =
     (case parse_chars X of None \<Rightarrow> None | Some (t, r) \<Rightarrow> Some (c # t, r))"
proof (cases "c = CHR 0x08 \<or> c = CHR 0x09 \<or> c = CHR 0x0A \<or> c = CHR 0x0C \<or> c = CHR 0x0D \<or>
              c = CHR 0x22 \<or> c = CHR 0x5C")
  case True
  then show ?thesis by (auto simp: quote_char_def unescape_def)
next
  case False
  show ?thesis
  proof (cases "(of_char c :: nat) < 32")
    case True
    with False show ?thesis
      by (simp add: quote_char_def unicode_escape_low)
  next
    case False
    with \<open>\<not> (c = CHR 0x08 \<or> _)\<close> show ?thesis
      by (simp add: quote_char_def)
  qed
qed

lemma parse_chars_quoted:
  "parse_chars (concat (map quote_char s) @ CHR 0x22 # rest) = Some (s, rest)"
  by (induction s) (simp_all add: parse_chars_quote_char)


lemma is_digit_digit_char: "d < 10 \<Longrightarrow> is_digit (digit_char d)"
  by (simp add: is_digit_def digit_char_def)

lemma of_digit_char: "d < 10 \<Longrightarrow> (of_char (digit_char d) :: nat) = 48 + d"
  by (simp add: digit_char_def)

lemma show_nat_digits: "list_all is_digit (show_nat n)"
proof (induction n rule: show_nat.induct)
  case (1 n)
  show ?case
  proof (cases "n < 10")
    case True
    then show ?thesis by (subst show_nat.simps) (simp add: is_digit_digit_char)
  next
    case False
    then show ?thesis using 1 by (subst show_nat.simps) (simp add: is_digit_digit_char)
  qed
qed

lemma show_nat_nonempty: "show_nat n \<noteq> []"
  by (subst show_nat.simps) simp

lemma read_nat_snoc: "read_nat (xs @ [c]) = 10 * read_nat xs + (of_char c - 48)"
  by (simp add: read_nat_def)

lemma read_show_nat: "read_nat (show_nat n) = n"
proof (induction n rule: show_nat.induct)
  case (1 n)
  show ?case
  proof (cases "n < 10")
    case True
    then show ?thesis by (subst show_nat.simps) (simp add: read_nat_def of_digit_char)
  next
    case False
    then show ?thesis using 1
      by (subst show_nat.simps) (simp add: read_nat_snoc of_digit_char)
  qed
qed

lemma digit_char_zero: "d < 10 \<Longrightarrow> digit_char d = CHR ''0'' \<Longrightarrow> d = 0"
proof -
  assume d: "d < 10" and e: "digit_char d = CHR ''0''"
  have "(of_char (digit_char d) :: nat) = of_char (CHR ''0'')" using e by simp
  then show "d = 0" using d by (simp add: of_digit_char)
qed

lemma show_nat_leading: "hd (show_nat n) = CHR ''0'' \<Longrightarrow> n = 0"
proof (induction n rule: show_nat.induct)
  case (1 n)
  show ?case
  proof (cases "n < 10")
    case True
    then show ?thesis using 1(2) digit_char_zero [of n]
      by (subst (asm) show_nat.simps) simp
  next
    case False
    then have "hd (show_nat n) = hd (show_nat (n div 10))"
      by (subst show_nat.simps) (simp add: show_nat_nonempty)
    then have "n div 10 = 0" using 1 False by simp
    then show ?thesis using False by simp
  qed
qed

lemma char_of_48: "char_of (48::nat) = CHR ''0''"
  by code_simp

lemma show_nat_zero: "show_nat 0 = ''0''"
  by (subst show_nat.simps) (simp add: digit_char_def char_of_48)

lemma value_end_not_digit: "value_end r \<Longrightarrow> r = [] \<or> \<not> is_digit (hd r)"
  by (cases r) (auto simp: value_end_def is_digit_def json_ws_def)

lemma value_end_not_frac:
  "value_end r \<Longrightarrow> \<not> (r \<noteq> [] \<and> (hd r = CHR ''.'' \<or> hd r = CHR ''e'' \<or> hd r = CHR ''E''))"
  by (cases r) (auto simp: value_end_def json_ws_def)

lemma digits_then_end:
  assumes "list_all is_digit ds" "value_end r"
  shows "takeWhile is_digit (ds @ r) = ds" "dropWhile is_digit (ds @ r) = r"
proof -
  have a: "\<forall>x\<in>set ds. is_digit x" using assms(1) by (simp add: list_all_iff)
  have b: "takeWhile is_digit r = []" "dropWhile is_digit r = r"
    using value_end_not_digit [OF assms(2)] by (cases r; simp)+
  show "takeWhile is_digit (ds @ r) = ds" using a b by simp
  show "dropWhile is_digit (ds @ r) = r" using a b by simp
qed

lemma parse_number_nat:
  assumes "value_end r"
  shows "parse_number (show_nat n @ r) = Some (Num (int n), r)"
proof -
  have nd: "hd (show_nat n @ r) \<noteq> CHR ''-''"
    using show_nat_digits [of n] show_nat_nonempty [of n]
    by (cases "show_nat n") (auto simp: is_digit_def)
  have lz: "\<not> (hd (show_nat n) = CHR ''0'' \<and> length (show_nat n) > 1)"
    using show_nat_leading [of n] show_nat_zero by auto
  show ?thesis
    using nd lz digits_then_end [OF show_nat_digits assms, of n] value_end_not_frac [OF assms]
    by (simp add: parse_number_def Let_def show_nat_nonempty read_show_nat)
qed

lemma parse_number_int:
  assumes "value_end r"
  shows "parse_number (show_int i @ r) = Some (Num i, r)"
proof (cases "i < 0")
  case False
  then show ?thesis using parse_number_nat [OF assms, of "nat i"] by (simp add: show_int_def)
next
  case True
  have lz: "\<not> (hd (show_nat (nat (- i))) = CHR ''0'' \<and> length (show_nat (nat (- i))) > 1)"
    using show_nat_leading [of "nat (- i)"] show_nat_zero by auto
  show ?thesis
    using True lz digits_then_end [OF show_nat_digits assms, of "nat (- i)"]
      value_end_not_frac [OF assms]
    by (simp add: parse_number_def Let_def show_nat_nonempty read_show_nat show_int_def)
qed


lemma skip_ws_append: "list_all json_ws w \<Longrightarrow> skip_ws (w @ s) = skip_ws s"
  by (simp add: skip_ws_def list_all_iff)

lemma skip_ws_start: "\<not> json_ws c \<Longrightarrow> skip_ws (c # s) = c # s"
  by (simp add: skip_ws_def)

lemma skip_ws_Nil: "skip_ws [] = []"
  by (simp add: skip_ws_def)

lemma serialize_None: "(serialize_json gap ind v = None) = (v = Undefined)"
  by (cases v) simp_all

lemma json_norm_Undefined: "(json_norm v = Undefined) = (v = Undefined)"
  by (cases v) simp_all

lemma join_Cons: "join sep (p # ps) = p @ (if ps = [] then [] else sep @ join sep ps)"
  by (cases ps) simp_all

lemma insort_key_map:
  "insort_key f (g x) (map g ys) = map g (insort_key (\<lambda>a. f (g a)) x ys)"
  by (induction ys) simp_all

lemma sort_key_map: "sort_key f (map g xs) = map g (sort_key (\<lambda>a. f (g a)) xs)"
  by (induction xs) (simp_all add: insort_key_map)

lemma own_entries_map:
  "own_entries (map (\<lambda>kv. (fst kv, f (snd kv))) kvs) =
     map (\<lambda>kv. (fst kv, f (snd kv))) (own_entries kvs)"
  by (simp add: own_entries_def filter_map sort_key_map comp_def)

lemma set_own_entries: "set (own_entries kvs) = set kvs"
  by (auto simp: own_entries_def)

lemma show_int_start: "show_int i \<noteq> [] \<and> (hd (show_int i) = CHR ''-'' \<or> is_digit (hd (show_int i)))"
  using show_nat_digits [of "nat i"] show_nat_nonempty [of "nat i"]
  by (cases "show_nat (nat i)") (auto simp: show_int_def)

lemma not_ws_digit: "is_digit c \<Longrightarrow> \<not> json_ws c"
  by (auto simp: is_digit_def json_ws_def)

lemma value_end_simps:
  "value_end []" "value_end (CHR '','' # r)" "value_end (CHR '']'' # r)" "value_end (CHR ''}'' # r)"
  by (simp_all add: value_end_def)

lemma value_end_ws: "list_all json_ws w \<Longrightarrow> value_end r \<Longrightarrow> value_end (w @ r)"
  by (cases w) (simp_all add: value_end_def)

text \<open>The literals.\<close>

lemma parse_null:
  "list_all json_ws w \<Longrightarrow> parse_value (Suc n) (w @ ''null'' @ rest) = Some (Null, rest)"
  by (simp add: skip_ws_append skip_ws_start json_ws_def is_digit_def)

lemma parse_true:
  "list_all json_ws w \<Longrightarrow> parse_value (Suc n) (w @ ''true'' @ rest) = Some (Bool True, rest)"
  by (simp add: skip_ws_append skip_ws_start json_ws_def is_digit_def)

lemma parse_false:
  "list_all json_ws w \<Longrightarrow> parse_value (Suc n) (w @ ''false'' @ rest) = Some (Bool False, rest)"
  by (simp add: skip_ws_append skip_ws_start json_ws_def is_digit_def)

lemma parse_string_value:
  "list_all json_ws w \<Longrightarrow> parse_value (Suc n) (w @ quote_json s @ rest) = Some (Str s, rest)"
  by (simp add: skip_ws_append skip_ws_start json_ws_def quote_json_def parse_chars_quoted)

lemma parse_int_value:
  assumes "list_all json_ws w" "value_end rest"
  shows "parse_value (Suc n) (w @ show_int i @ rest) = Some (Num i, rest)"
proof -
  obtain c cs where c: "show_int i = c # cs" "c = CHR ''-'' \<or> is_digit c"
    using show_int_start [of i] by (cases "show_int i") auto
  have nw: "\<not> json_ws c" using c(2) by (auto simp: json_ws_def is_digit_def)
  have d: "c \<noteq> CHR ''{''" "c \<noteq> CHR ''[''" "c \<noteq> CHR 0x22"
    using c(2) by (auto simp: is_digit_def)
  have "parse_value (Suc n) (w @ show_int i @ rest) = parse_number (c # cs @ rest)"
    using assms(1) c nw d by (simp add: skip_ws_append skip_ws_start)
  also have "\<dots> = Some (Num i, rest)"
    using parse_number_int [OF assms(2), of i] c(1) by simp
  finally show ?thesis .
qed


lemma parse_elements_printed:
  assumes el: "\<And>x t n w rest. x \<in> set xs \<Longrightarrow> serialize_json gap ind x = Some t \<Longrightarrow>
                 length t \<le> n \<Longrightarrow> list_all json_ws w \<Longrightarrow> value_end rest \<Longrightarrow>
                 parse_value n (w @ t @ rest) = Some (json_norm x, rest)"
    and ne: "xs \<noteq> []"
    and w1: "list_all json_ws w1" and w2: "list_all json_ws w2" and w: "list_all json_ws w"
    and fuel: "length (join (CHR '','' # w1)
                 (map (\<lambda>x. case serialize_json gap ind x of None \<Rightarrow> ''null'' | Some t \<Rightarrow> t) xs)) < n"
  shows "parse_elements n
           (w @ join (CHR '','' # w1)
                  (map (\<lambda>x. case serialize_json gap ind x of None \<Rightarrow> ''null'' | Some t \<Rightarrow> t) xs)
              @ w2 @ CHR '']'' # rest) =
         Some (map (\<lambda>x. if x = Undefined then Null else json_norm x) xs, rest)"
  using el ne w fuel
proof (induction xs arbitrary: n w)
  case Nil
  then show ?case by simp
next
  case (Cons x xs)
  let ?txt = "\<lambda>x. case serialize_json gap ind x of None \<Rightarrow> ''null'' | Some t \<Rightarrow> t"
  let ?nrm = "\<lambda>x. if x = Undefined then Null else json_norm x"
  let ?sep = "CHR '','' # w1"
  obtain m where n: "n = Suc m" using Cons.prems(4) by (cases n) auto
  have len: "length (?txt x) \<le> m"
    using Cons.prems(4) n by (simp add: join_Cons split: if_splits)
  have pv: "parse_value m (w @ ?txt x @ r) = Some (?nrm x, r)" if r: "value_end r" for r
  proof (cases "x = Undefined")
    case True
    then obtain k where "m = Suc k" using len by (cases m) auto
    then show ?thesis using True parse_null [OF Cons.prems(3)] by simp
  next
    case False
    then obtain t where t: "serialize_json gap ind x = Some t"
      using serialize_None [of gap ind x] by (cases "serialize_json gap ind x") auto
    have "x \<in> set (x # xs)" by simp
    from Cons.prems(1) [OF this t _ Cons.prems(3) r, where n = m] len t False show ?thesis by simp
  qed
  show ?case
  proof (cases "xs = []")
    case True
    have e: "value_end (w2 @ CHR '']'' # rest)"
      by (rule value_end_ws [OF w2]) (simp add: value_end_simps)
    have s: "skip_ws (w2 @ CHR '']'' # rest) = CHR '']'' # rest"
      using w2 by (simp add: skip_ws_append skip_ws_start json_ws_def)
    show ?thesis using True pv [OF e] s by (simp add: n)
  next
    case False
    let ?J = "join ?sep (map ?txt xs)"
    let ?R = "w1 @ ?J @ w2 @ CHR '']'' # rest"
    have e: "value_end (CHR '','' # ?R)" by (simp add: value_end_simps)
    have s: "skip_ws (CHR '','' # ?R) = CHR '','' # ?R"
      by (simp add: skip_ws_start json_ws_def)
    have f: "length ?J < m"
      using Cons.prems(4) n False by (simp add: join_Cons)
    have ih: "parse_elements m ?R = Some (map ?nrm xs, rest)"
      using Cons.IH [where n = m and w = w1] Cons.prems(1) False w1 f by simp
    have "parse_elements n (w @ join ?sep (map ?txt (x # xs)) @ w2 @ CHR '']'' # rest) =
          parse_elements (Suc m) (w @ ?txt x @ CHR '','' # ?R)"
      using False by (simp add: n join_Cons)
    also have "\<dots> = Some (?nrm x # map ?nrm xs, rest)"
      using pv [OF e] s ih by simp
    finally show ?thesis by simp
  qed
qed


lemma not_ws:
  "\<not> json_ws (CHR 0x22)" "\<not> json_ws (CHR '':'')" "\<not> json_ws (CHR '','')"
  "\<not> json_ws (CHR '']'')" "\<not> json_ws (CHR ''}'')" "\<not> json_ws (CHR ''['')"
  "\<not> json_ws (CHR ''{'')"
  by (simp_all add: json_ws_def)

lemma members_none:
  "concat (map (\<lambda>kv. case serialize_json gap ind (snd kv) of None \<Rightarrow> []
                  | Some t \<Rightarrow> [quote_json (fst kv) @ '':'' @ sp @ t]) es) = [] \<Longrightarrow>
   filter (\<lambda>kv. snd kv \<noteq> Undefined) es = []"
proof (induction es)
  case Nil
  then show ?case by simp
next
  case (Cons a es)
  then show ?case using serialize_None [of gap ind "snd a"]
    by (cases "serialize_json gap ind (snd a)") auto
qed

lemma parse_members_printed:
  assumes el: "\<And>kv t n w rest. kv \<in> set es \<Longrightarrow> serialize_json gap ind (snd kv) = Some t \<Longrightarrow>
                 length t \<le> n \<Longrightarrow> list_all json_ws w \<Longrightarrow> value_end rest \<Longrightarrow>
                 parse_value n (w @ t @ rest) = Some (json_norm (snd kv), rest)"
    and ne: "concat (map (\<lambda>kv. case serialize_json gap ind (snd kv) of None \<Rightarrow> []
                            | Some t \<Rightarrow> [quote_json (fst kv) @ '':'' @ sp @ t]) es) \<noteq> []"
    and w1: "list_all json_ws w1" and w2: "list_all json_ws w2" and sp: "list_all json_ws sp"
    and w: "list_all json_ws w"
    and fuel: "length (join (CHR '','' # w1)
                 (concat (map (\<lambda>kv. case serialize_json gap ind (snd kv) of None \<Rightarrow> []
                            | Some t \<Rightarrow> [quote_json (fst kv) @ '':'' @ sp @ t]) es))) < n"
  shows "parse_members n
           (w @ join (CHR '','' # w1)
                  (concat (map (\<lambda>kv. case serialize_json gap ind (snd kv) of None \<Rightarrow> []
                            | Some t \<Rightarrow> [quote_json (fst kv) @ '':'' @ sp @ t]) es))
              @ w2 @ CHR ''}'' # rest) =
         Some (map (\<lambda>kv. (fst kv, json_norm (snd kv))) (filter (\<lambda>kv. snd kv \<noteq> Undefined) es), rest)"
  using el ne w fuel
proof (induction es arbitrary: n w)
  case Nil
  then show ?case by simp
next
  case (Cons kv es)
  let ?mem = "\<lambda>kv. case serialize_json gap ind (snd kv) of None \<Rightarrow> []
                            | Some t \<Rightarrow> [quote_json (fst kv) @ '':'' @ sp @ t]"
  let ?nrm = "\<lambda>kv. (fst kv, json_norm (snd kv))"
  let ?def = "\<lambda>kv. snd kv \<noteq> Undefined"
  let ?sep = "CHR '','' # w1"
  define ps where "ps = concat (map ?mem es)"
  show ?case
  proof (cases "snd kv = Undefined")
    case True
    then have "concat (map ?mem (kv # es)) = concat (map ?mem es)" by simp
    then show ?thesis
      using Cons.IH [where n = n and w = w] Cons.prems True by simp
  next
    case False
    then obtain t where t: "serialize_json gap ind (snd kv) = Some t"
      using serialize_None [of gap ind "snd kv"] by (cases "serialize_json gap ind (snd kv)") auto
    let ?mt = "quote_json (fst kv) @ '':'' @ sp @ t"
    have parts: "concat (map ?mem (kv # es)) = ?mt # ps" using t by (simp add: ps_def)
    have fuel': "length (join ?sep (?mt # ps)) < n"
      using Cons.prems(4) unfolding parts .
    obtain m where n: "n = Suc m" using fuel' by (cases n) auto
    have len: "length t \<le> m"
      using fuel' n by (simp add: join_Cons split: if_splits)
    have kvin: "kv \<in> set (kv # es)" by simp
    have pv: "parse_value m (sp @ t @ r) = Some (json_norm (snd kv), r)" if r: "value_end r" for r
      using Cons.prems(1) [OF kvin t len sp r] .
    have key: "skip_ws (w @ ?mt @ r) =
        CHR 0x22 # concat (map quote_char (fst kv)) @ CHR 0x22 # CHR '':'' # sp @ t @ r" for r
      using Cons.prems(3) by (simp add: skip_ws_append quote_json_def skip_ws_start not_ws)
    have colon: "skip_ws (CHR '':'' # sp @ t @ r) = CHR '':'' # sp @ t @ r" for r
      by (simp add: skip_ws_start not_ws)
    have step: "parse_members (Suc m) (w @ ?mt @ r) =
        (case skip_ws r of [] \<Rightarrow> None
         | d # r4 \<Rightarrow>
             if d = CHR '','' then
               (case parse_members m r4 of None \<Rightarrow> None
                | Some (ms, r5) \<Rightarrow> Some (?nrm kv # ms, r5))
             else if d = CHR ''}'' then Some ([?nrm kv], r4) else None)" if r: "value_end r" for r
      using key [of r] colon [of r] pv [OF r] by (simp add: parse_chars_quoted)
    show ?thesis
    proof (cases "ps = []")
      case True
      then have none: "filter ?def es = []"
        using members_none [where gap = gap and ind = ind and sp = sp and es = es]
        by (simp only: ps_def)
      have e: "value_end (w2 @ CHR ''}'' # rest)"
        by (rule value_end_ws [OF w2]) (simp add: value_end_simps)
      have s: "skip_ws (w2 @ CHR ''}'' # rest) = CHR ''}'' # rest"
        using w2 by (simp add: skip_ws_append skip_ws_start not_ws)
      have same: "w @ join ?sep (?mt # ps) @ w2 @ CHR ''}'' # rest =
                 w @ ?mt @ w2 @ CHR ''}'' # rest"
        using True by simp
      have "parse_members n (w @ join ?sep (concat (map ?mem (kv # es))) @ w2 @ CHR ''}'' # rest) =
            parse_members (Suc m) (w @ ?mt @ w2 @ CHR ''}'' # rest)"
        by (simp only: parts same n)
      also have "\<dots> = Some ([?nrm kv], rest)"
        by (simp only: step [OF e] s) simp
      finally show ?thesis using False none by simp
    next
      case ne: False
      let ?J = "join ?sep ps"
      let ?R = "w1 @ ?J @ w2 @ CHR ''}'' # rest"
      have e: "value_end (CHR '','' # ?R)" by (simp add: value_end_simps)
      have s: "skip_ws (CHR '','' # ?R) = CHR '','' # ?R"
        by (simp add: skip_ws_start not_ws)
      have f: "length ?J < m"
        using fuel' n ne by (simp add: join_Cons)
      have "parse_members m ?R = Some (map ?nrm (filter ?def es), rest)"
        unfolding ps_def
      proof (rule Cons.IH)
        show "concat (map ?mem es) \<noteq> []" by (rule ne [unfolded ps_def])
        show "list_all json_ws w1" by (rule w1)
        show "length (join ?sep (concat (map ?mem es))) < m" by (rule f [unfolded ps_def])
      next
        fix kv' t' n' w' rest'
        assume "kv' \<in> set es" "serialize_json gap ind (snd kv') = Some t'" "length t' \<le> n'"
          "list_all json_ws w'" "value_end rest'"
        then show "parse_value n' (w' @ t' @ rest') = Some (json_norm (snd kv'), rest')"
          using Cons.prems(1) [of kv' t' n' w' rest'] by simp
      qed
      then have ih: "parse_members m ?R = Some (map ?nrm (filter ?def es), rest)" .
      have same: "w @ join ?sep (?mt # ps) @ w2 @ CHR ''}'' # rest = w @ ?mt @ CHR '','' # ?R"
        using ne by (simp add: join_Cons)
      have "parse_members n (w @ join ?sep (concat (map ?mem (kv # es))) @ w2 @ CHR ''}'' # rest) =
            parse_members (Suc m) (w @ ?mt @ CHR '','' # ?R)"
        by (simp only: parts same n)
      also have "\<dots> = Some (?nrm kv # map ?nrm (filter ?def es), rest)"
        by (simp only: step [OF e] s) (simp add: ih)
      finally show ?thesis using False by simp
    qed
  qed
qed


lemma wrap_json_parts:
  "parts \<noteq> [] \<Longrightarrow>
   wrap_json [opn] [cls] gap ind parts =
     opn # (if gap = [] then [] else CHR 0x0A # ind @ gap) @
       join (CHR '','' # (if gap = [] then [] else CHR 0x0A # ind @ gap)) parts @
       (if gap = [] then [] else CHR 0x0A # ind) @ [cls]"
  by (simp add: wrap_json_def)

lemma newline_ws:
  "list_all json_ws i \<Longrightarrow> list_all json_ws (if gap = [] then [] else CHR 0x0A # i)"
  by (simp add: json_ws_def)

lemma first_char:
  "serialize_json gap ind v = Some t \<Longrightarrow>
   \<exists>c cs. t = c # cs \<and> \<not> json_ws c \<and> c \<noteq> CHR '']'' \<and> c \<noteq> CHR ''}''"
proof (cases v)
  case (Num i)
  assume "serialize_json gap ind v = Some t"
  then have t: "t = show_int i" using Num by simp
  obtain c cs where c: "show_int i = c # cs" "c = CHR ''-'' \<or> is_digit c"
    using show_int_start [of i] by (cases "show_int i") auto
  then show ?thesis using t by (auto simp: json_ws_def is_digit_def)
next
  case (Arr xs)
  assume "serialize_json gap ind v = Some t"
  then show ?thesis using Arr by (auto simp: wrap_json_def json_ws_def)
next
  case (Obj kvs)
  assume "serialize_json gap ind v = Some t"
  then show ?thesis using Obj by (auto simp: wrap_json_def json_ws_def)
qed (auto simp: json_ws_def quote_json_def)

lemma skip_ws_value:
  assumes "t = c # cs" "\<not> json_ws c" "list_all json_ws w"
  shows "skip_ws (w @ t @ r) = c # cs @ r"
  using assms by (simp add: skip_ws_append skip_ws_start)


lemma elem_first:
  "\<exists>c cs. (case serialize_json gap ind x of None \<Rightarrow> ''null'' | Some t \<Rightarrow> t) = c # cs \<and>
          \<not> json_ws c \<and> c \<noteq> CHR '']''"
proof (cases "serialize_json gap ind x")
  case None
  then show ?thesis by (simp add: json_ws_def)
next
  case (Some t)
  then show ?thesis using first_char [OF Some] by auto
qed

lemma parse_array_printed:
  assumes el: "\<And>x t n w rest. x \<in> set xs \<Longrightarrow> serialize_json gap (ind @ gap) x = Some t \<Longrightarrow>
                 length t \<le> n \<Longrightarrow> list_all json_ws w \<Longrightarrow> value_end rest \<Longrightarrow>
                 parse_value n (w @ t @ rest) = Some (json_norm x, rest)"
    and g: "list_all json_ws gap" and i: "list_all json_ws ind" and w: "list_all json_ws w"
    and t: "serialize_json gap ind (Arr xs) = Some t" and fuel: "length t \<le> n"
  shows "parse_value n (w @ t @ rest) = Some (json_norm (Arr xs), rest)"
proof (cases "xs = []")
  case True
  then have t': "t = ''[]''" using t by (simp add: wrap_json_def)
  then obtain m where n: "n = Suc m" using fuel by (cases n) auto
  show ?thesis using True w
    by (simp add: t' n skip_ws_append skip_ws_start not_ws)
next
  case False
  let ?txt = "\<lambda>x. case serialize_json gap (ind @ gap) x of None \<Rightarrow> ''null'' | Some t \<Rightarrow> t"
  let ?nrm = "\<lambda>x. if x = Undefined then Null else json_norm x"
  define nlx where "nlx = (if gap = [] then [] else CHR 0x0A # ind @ gap)"
  define nly where "nly = (if gap = [] then [] else CHR 0x0A # ind)"
  define J where "J = join (CHR '','' # nlx) (map ?txt xs)"
  have wx: "list_all json_ws nlx" using g i by (simp add: nlx_def json_ws_def)
  have wy: "list_all json_ws nly" using i by (simp add: nly_def json_ws_def)
  have t': "t = CHR ''['' # nlx @ J @ nly @ [CHR '']'']"
    using t False wrap_json_parts [of "map ?txt xs" "CHR ''[''" "CHR '']''" gap ind]
    by (simp add: nlx_def nly_def J_def)
  obtain m where n: "n = Suc m" using fuel t' by (cases n) auto
  have f: "length J < m" using fuel t' n by simp
  obtain x xs' where xs: "xs = x # xs'" using False by (cases xs) auto
  obtain c cs where c: "?txt x = c # cs" "\<not> json_ws c" "c \<noteq> CHR '']''"
    using elem_first [of gap "ind @ gap" x] by blast
  obtain J' where J': "J = c # J'"
    using c(1) by (simp add: J_def xs join_Cons)
  have el': "parse_elements m ([] @ J @ nly @ CHR '']'' # rest) = Some (map ?nrm xs, rest)"
    unfolding J_def
  proof (rule parse_elements_printed)
    show "xs \<noteq> []" by (rule False)
    show "list_all json_ws nlx" by (rule wx)
    show "list_all json_ws nly" by (rule wy)
    show "list_all json_ws []" by simp
    show "length (join (CHR '','' # nlx) (map ?txt xs)) < m" by (rule f [unfolded J_def])
  next
    fix x t n w rest
    assume "x \<in> set xs" "serialize_json gap (ind @ gap) x = Some t" "length t \<le> n"
      "list_all json_ws w" "value_end rest"
    then show "parse_value n (w @ t @ rest) = Some (json_norm x, rest)" by (rule el)
  qed
  have s1: "skip_ws (w @ t @ rest) = CHR ''['' # nlx @ J @ nly @ CHR '']'' # rest"
    using w by (simp add: t' skip_ws_append skip_ws_start not_ws)
  have s2: "skip_ws (nlx @ J @ nly @ CHR '']'' # rest) = c # J' @ nly @ CHR '']'' # rest"
    using wx c(2) by (simp add: J' skip_ws_append skip_ws_start)
  have "parse_value n (w @ t @ rest) =
        (case parse_elements m (c # J' @ nly @ CHR '']'' # rest) of
           None \<Rightarrow> None | Some (vs, r) \<Rightarrow> Some (Arr vs, r))"
    using c(3) by (simp add: n s1 s2)
  also have "\<dots> = Some (Arr (map ?nrm xs), rest)"
    using el' by (simp add: J')
  finally show ?thesis by simp
qed


lemma serialize_Obj:
  "serialize_json gap ind (Obj kvs) =
     Some (wrap_json ''{'' ''}'' gap ind
       (concat (map (\<lambda>kv. case serialize_json gap (ind @ gap) (snd kv) of None \<Rightarrow> []
                       | Some t \<Rightarrow> [quote_json (fst kv) @ '':'' @ (if gap = [] then [] else '' '') @ t])
                  (own_entries kvs))))"
  by (simp add: own_entries_map comp_def cong: option.case_cong)

lemma json_norm_Obj:
  "json_norm (Obj kvs) =
     Obj (build_object (map (\<lambda>kv. (fst kv, json_norm (snd kv)))
            (filter (\<lambda>kv. snd kv \<noteq> Undefined) (own_entries kvs))))"
  by (simp add: own_entries_map filter_map comp_def json_norm_Undefined)

lemma build_object_Nil: "build_object [] = []"
  by (simp add: build_object_def)

lemma parse_object_printed:
  assumes el: "\<And>kv t n w rest. kv \<in> set kvs \<Longrightarrow>
                 serialize_json gap (ind @ gap) (snd kv) = Some t \<Longrightarrow>
                 length t \<le> n \<Longrightarrow> list_all json_ws w \<Longrightarrow> value_end rest \<Longrightarrow>
                 parse_value n (w @ t @ rest) = Some (json_norm (snd kv), rest)"
    and g: "list_all json_ws gap" and i: "list_all json_ws ind" and w: "list_all json_ws w"
    and t: "serialize_json gap ind (Obj kvs) = Some t" and fuel: "length t \<le> n"
  shows "parse_value n (w @ t @ rest) = Some (json_norm (Obj kvs), rest)"
proof -
  let ?sp = "if gap = [] then [] else '' ''"
  let ?mem = "\<lambda>kv. case serialize_json gap (ind @ gap) (snd kv) of None \<Rightarrow> []
                       | Some t \<Rightarrow> [quote_json (fst kv) @ '':'' @ ?sp @ t]"
  let ?nrm = "\<lambda>kv. (fst kv, json_norm (snd kv))"
  let ?def = "\<lambda>kv. snd kv \<noteq> Undefined"
  define es where "es = own_entries kvs"
  define ps where "ps = concat (map ?mem es)"
  have wsp: "list_all json_ws ?sp" by (simp add: json_ws_def)
  have t0: "t = wrap_json ''{'' ''}'' gap ind ps"
    using t unfolding serialize_Obj by (simp add: ps_def es_def)
  have nrm: "json_norm (Obj kvs) = Obj (build_object (map ?nrm (filter ?def es)))"
    by (simp only: json_norm_Obj es_def)
  show ?thesis
  proof (cases "ps = []")
    case True
    then have t': "t = ''{}''" using t0 by (simp add: wrap_json_def)
    then obtain m where n: "n = Suc m" using fuel by (cases n) auto
    have none: "filter ?def es = []"
      using members_none [where gap = gap and ind = "ind @ gap" and sp = "?sp" and es = es] True
      by (simp only: ps_def)
    have "parse_value n (w @ t @ rest) = Some (Obj [], rest)"
      using w by (simp add: t' n skip_ws_append skip_ws_start not_ws)
    then show ?thesis by (simp only: nrm none list.map build_object_Nil)
  next
    case False
    define nlx where "nlx = (if gap = [] then [] else CHR 0x0A # ind @ gap)"
    define nly where "nly = (if gap = [] then [] else CHR 0x0A # ind)"
    define J where "J = join (CHR '','' # nlx) ps"
    have wx: "list_all json_ws nlx" using g i by (simp add: nlx_def json_ws_def)
    have wy: "list_all json_ws nly" using i by (simp add: nly_def json_ws_def)
    have t': "t = CHR ''{'' # nlx @ J @ nly @ [CHR ''}'']"
      using t0 False wrap_json_parts [of ps "CHR ''{''" "CHR ''}''" gap ind]
      by (simp add: nlx_def nly_def J_def)
    obtain m where n: "n = Suc m" using fuel t' by (cases n) auto
    have f: "length J < m" using fuel t' n by simp
    have "\<exists>p ps'. ps = (CHR 0x22 # p) # ps'"
      using False unfolding ps_def
    proof (induction es)
      case Nil
      then show ?case by simp
    next
      case (Cons a es)
      then show ?case
        by (cases "serialize_json gap (ind @ gap) (snd a)") (auto simp: quote_json_def)
    qed
    then obtain p ps' where ps': "ps = (CHR 0x22 # p) # ps'" by blast
    obtain J' where J': "J = CHR 0x22 # J'"
      by (simp add: J_def ps' join_Cons)
    have mem: "parse_members m ([] @ J @ nly @ CHR ''}'' # rest) =
               Some (map ?nrm (filter ?def es), rest)"
      unfolding J_def ps_def
    proof (rule parse_members_printed)
      show "concat (map ?mem es) \<noteq> []" by (rule False [unfolded ps_def])
      show "list_all json_ws nlx" by (rule wx)
      show "list_all json_ws nly" by (rule wy)
      show "list_all json_ws ?sp" by (rule wsp)
      show "list_all json_ws []" by simp
      show "length (join (CHR '','' # nlx) (concat (map ?mem es))) < m"
        by (rule f [unfolded J_def ps_def])
    next
      fix kv t n w rest
      assume a: "kv \<in> set es" "serialize_json gap (ind @ gap) (snd kv) = Some t" "length t \<le> n"
        "list_all json_ws w" "value_end rest"
      have "kv \<in> set kvs" using a(1) by (simp add: es_def set_own_entries)
      then show "parse_value n (w @ t @ rest) = Some (json_norm (snd kv), rest)"
        using a(2-5) by (rule el)
    qed
    have s1: "skip_ws (w @ t @ rest) = CHR ''{'' # nlx @ J @ nly @ CHR ''}'' # rest"
      using w by (simp add: t' skip_ws_append skip_ws_start not_ws)
    have s2: "skip_ws (nlx @ J @ nly @ CHR ''}'' # rest) = CHR 0x22 # J' @ nly @ CHR ''}'' # rest"
      using wx by (simp add: J' skip_ws_append skip_ws_start not_ws)
    have "parse_value n (w @ t @ rest) =
          (case parse_members m (CHR 0x22 # J' @ nly @ CHR ''}'' # rest) of
             None \<Rightarrow> None | Some (ms, r) \<Rightarrow> Some (Obj (build_object ms), r))"
      by (simp add: n s1 s2)
    also have "\<dots> = Some (Obj (build_object (map ?nrm (filter ?def es))), rest)"
      using mem by (simp add: J')
    finally show ?thesis by (simp only: nrm)
  qed
qed

lemma parse_serialized:
  "serialize_json gap ind v = Some t \<Longrightarrow> list_all json_ws gap \<Longrightarrow> list_all json_ws ind \<Longrightarrow>
   length t \<le> n \<Longrightarrow> list_all json_ws w \<Longrightarrow> value_end rest \<Longrightarrow>
   parse_value n (w @ t @ rest) = Some (json_norm v, rest)"
proof (induction v arbitrary: gap ind t n w rest)
  case Undefined
  then show ?case by simp
next
  case Null
  then obtain m where "n = Suc m" by (cases n) auto
  then show ?case using Null parse_null [of w m rest] by simp
next
  case (Bool b)
  then obtain m where "n = Suc m" by (cases n) (auto split: if_splits)
  then show ?case using Bool parse_true [of w m rest] parse_false [of w m rest]
    by (auto split: if_splits)
next
  case (Num i)
  then obtain m where "n = Suc m"
    using show_int_start [of i] by (cases n) auto
  then show ?case using Num parse_int_value [of w rest m i] by simp
next
  case NaN
  then obtain m where "n = Suc m" by (cases n) auto
  then show ?case using NaN parse_null [of w m rest] by simp
next
  case (Str s)
  then obtain m where "n = Suc m" by (cases n) (auto simp: quote_json_def)
  then show ?case using Str parse_string_value [of w m s rest] by simp
next
  case (Arr xs)
  show ?case
  proof (rule parse_array_printed [OF _ Arr.prems(2,3,5,1,4)])
    fix x t n w rest
    assume a: "x \<in> set xs" "serialize_json gap (ind @ gap) x = Some t" "length t \<le> n"
      "list_all json_ws w" "value_end rest"
    have "list_all json_ws (ind @ gap)" using Arr.prems(2,3) by simp
    then show "parse_value n (w @ t @ rest) = Some (json_norm x, rest)"
      using Arr.IH [OF a(1,2) Arr.prems(2) _ a(3,4,5)] by simp
  qed
next
  case (Obj kvs)
  show ?case
  proof (rule parse_object_printed [OF _ Obj.prems(2,3,5,1,4)])
    fix kv t n w rest
    assume a: "kv \<in> set kvs" "serialize_json gap (ind @ gap) (snd kv) = Some t" "length t \<le> n"
      "list_all json_ws w" "value_end rest"
    have i: "list_all json_ws (ind @ gap)" using Obj.prems(2,3) by simp
    have s: "snd kv \<in> Basic_BNFs.snds kv" by (cases kv) simp
    show "parse_value n (w @ t @ rest) = Some (json_norm (snd kv), rest)"
      using Obj.IH [OF a(1) s a(2) Obj.prems(2) i a(3,4,5)] .
  qed
qed

theorem JSON_parse_stringify2:
  assumes "v \<noteq> Undefined"
  shows "JSON_parse (to_string (JSON_stringify2 v)) = Some (json_norm v)"
proof -
  obtain t where t: "serialize_json ''  '' [] v = Some t"
    using assms serialize_None [of "''  ''" "[]" v] by (cases "serialize_json ''  '' [] v") auto
  have "parse_value (length t) ([] @ t @ []) = Some (json_norm v, [])"
    by (rule parse_serialized [OF t]) (simp_all add: json_ws_def value_end_def)
  then show ?thesis by (simp add: JSON_parse_def JSON_stringify2_def t skip_ws_def)
qed


lemma squeeze_replace:
  "squeeze False cs = replace_spaces cs \<and> squeeze True cs = replace_spaces (dropWhile is_space cs)"
  by (induction cs) simp_all

lemma replace_spaces_runs: "replace_spaces name = underscore_runs name"
  by (simp add: underscore_runs_def squeeze_replace)

lemma map_of_set_prop: "map_of (set_prop kvs k v) = (map_of kvs)(k \<mapsto> v)"
  by (induction kvs) (auto simp: fun_eq_iff)

lemma map_of_foldl_set_prop:
  "map_of (foldl (\<lambda>obj kv. set_prop obj (fst kv) (snd kv)) acc ms) = map_of acc ++ map_of (rev ms)"
proof (induction ms arbitrary: acc)
  case Nil
  then show ?case by simp
next
  case (Cons m ms)
  show ?case
    by (simp add: Cons.IH map_of_set_prop map_add_def fun_eq_iff split: option.splits)
qed

lemma map_of_build_object: "map_of (build_object ms) = map_of (rev ms)"
  by (simp add: build_object_def map_of_foldl_set_prop)

lemma own_entries_plain:
  "\<forall>kv \<in> set kvs. \<not> is_array_index (fst kv) \<Longrightarrow> own_entries kvs = kvs"
  by (simp add: own_entries_def filter_empty_conv)

lemma stats_keys:
  "\<not> is_array_index ''analysis_date''" "\<not> is_array_index ''region''"
  "\<not> is_array_index ''area_km2''" "\<not> is_array_index ''year''"
  "\<not> is_array_index ''analysis_type''" "\<not> is_array_index ''parameters''"
  "\<not> is_array_index ''results''"
  by (simp_all add: is_array_index_def is_digit_def)

lemma stats_region:
  "get_prop (json_norm (build_stats env a results)) ''region'' = Inr (Str (aoi_name a))"
proof -
  have "own_entries [(''analysis_date'', x1), (''region'', x2), (''area_km2'', x3), (''year'', x4),
                     (''analysis_type'', x5), (''parameters'', x6), (''results'', x7)] =
        [(''analysis_date'', x1), (''region'', x2), (''area_km2'', x3), (''year'', x4),
         (''analysis_type'', x5), (''parameters'', x6), (''results'', x7)]"
    for x1 x2 x3 x4 x5 x6 x7 :: jsval
    by (rule own_entries_plain) (simp add: stats_keys)
  then show ?thesis
    by (simp add: build_stats_def json_norm_Obj map_of_build_object del: json_norm.simps(3))
qed

lemma stats_defined: "build_stats env a results \<noteq> Undefined"
  by (simp add: build_stats_def)

lemma downloads_simps:
  "downloads [] = []" "downloads (e # es) = download_of e @ downloads es"
  by (simp_all add: downloads_def)

lemma digit_chars:
  "digit_char 0 = CHR ''0''" "digit_char (Suc 0) = CHR ''1''" "digit_char 2 = CHR ''2''"
  "digit_char 3 = CHR ''3''" "digit_char 4 = CHR ''4''" "digit_char 5 = CHR ''5''"
  "digit_char 6 = CHR ''6''" "digit_char 7 = CHR ''7''" "digit_char 8 = CHR ''8''"
  "digit_char 9 = CHR ''9''"
  by (simp_all add: digit_char_def char_of_def bit_Suc_0_iff)

lemma show_millis: "show_nat 1704067200000 = ''1704067200000''"
  by (simp add: show_nat.simps digit_chars)

lemma jakarta_runs: "underscore_runs ''DKI  Jakarta'' = ''DKI_Jakarta''"
  by (simp add: underscore_runs_def is_space_def)

lemmas complete_defs = runCompleteAnalysis_def complete_try_def vegetation_step_def
  landcover_step_def display_step_def vegetation_run landcover_run store_vegetation_truthy
  effects Object_keys_def

section \<open>The transport wrapper: result and number of calls\<close>

text \<open>
  C1, amended. \<^verbatim>\<open>request\<close> never throws. When the network call succeeds the result is
  \<^verbatim>\<open>{success: true, data}\<close> with the parsed body; when it is rejected the result is
  \<^verbatim>\<open>{success: false, error}\<close>, where \<^verbatim>\<open>error\<close> is the first truthy value among the
  \<^verbatim>\<open>error\<close> field of the JSON error body and the status text, else the string
  \<^verbatim>\<open>Network error\<close>. An \<^verbatim>\<open>error\<close> field that is present but empty, \<^verbatim>\<open>null\<close>,
  \<^verbatim>\<open>false\<close> or \<^verbatim>\<open>0\<close> is passed over.
\<close>

theorem request_result:
  "(\<exists>r. fst (request env this ep opts s) = Inr r) \<and>
   (\<forall>st d. ajax_settings_of this ep opts = Inr st \<and> net env (sends (log s)) st = Resolved d
      \<longrightarrow> fst (request env this ep opts s) = Inr (Success d)) \<and>
   (\<forall>st x. ajax_settings_of this ep opts = Inr st \<and> net env (sends (log s)) st = Rejected x
      \<longrightarrow> fst (request env this ep opts s) = Inr (Failure (error_text x)))"
proof (cases "ajax_settings_of this ep opts")
  case (Inl e)
  then show ?thesis by (simp add: request_unsent)
next
  case (Inr st)
  then show ?thesis by (simp add: request_sent split: ajax_outcome.splits)
qed

theorem request_result_witness:
  "ajax_settings_of (apiClient API_CONFIG) ''/health'' no_options =
     Inr (get_settings (apiClient API_CONFIG) ''/health'') \<and>
   net (page ''combined'' (failing server_error)) (sends (log s_init))
     (get_settings (apiClient API_CONFIG) ''/health'') = Rejected server_error \<and>
   fst (request (page ''combined'' (failing server_error)) (apiClient API_CONFIG)
          ''/health'' no_options s_init) = Inr (Failure (Str ''Earth Engine quota exceeded''))"
  using request_result [of "page ''combined'' (failing server_error)" "apiClient API_CONFIG"
      "''/health''" no_options s_init]
  by (simp add: settings_no_options page_def failing_def error_text_def server_error_def
      get_prop_opt_def)

text \<open>
  C1 as first stated gives the \<^verbatim>\<open>error\<close> field priority whenever the error body has
  one. The body \<^verbatim>\<open>{"error": ""}\<close> has one, and the wrapper returns the status text.
\<close>

theorem request_empty_error_field:
  "error_text_by_presence empty_error = Str [] \<and>
   fst (request (page ''combined'' (failing empty_error)) (apiClient API_CONFIG)
          ''/health'' no_options s_init) = Inr (Failure (Str ''INTERNAL SERVER ERROR''))"
  by (simp add: request_get page_def failing_def error_text_def error_text_by_presence_def
      empty_error_def get_prop_opt_def)

text \<open>
  C4, amended. \<^verbatim>\<open>request\<close> performs at most one network call, and exactly one whenever
  the settings object of the call can be built, as it can for every endpoint method
  called with parameters that \<^verbatim>\<open>JSON.stringify\<close> accepts. The configured retry count
  is never read: changing it changes nothing.
\<close>

theorem request_at_most_once:
  "sends (new_events s (snd (request env this ep opts s))) \<le> 1 \<and>
   (builds_settings opts \<longrightarrow> sends (new_events s (snd (request env this ep opts s))) = 1) \<and>
   sends (new_events s (snd (healthCheck env this s))) = 1 \<and>
   sends (new_events s (snd (getProvinces env this s))) = 1 \<and>
   sends (new_events s (snd (getCities env this provinceCode s))) = 1 \<and>
   sends (new_events s (snd (getRegionGeometry env this endpoint code s))) = 1 \<and>
   sends (new_events s (snd (analyzeVegetation env this (Json params) s))) = 1 \<and>
   sends (new_events s (snd (analyzeLandCover env this (Json params) s))) = 1 \<and>
   sends (new_events s (snd (analyzeTimeSeries env this (Json params) s))) = 1 \<and>
   sends (new_events s (snd (exportToDrive env this (Json params) s))) = 1 \<and>
   request (env\<lparr>config := (config env)\<lparr>cfg_retries := r\<rparr>\<rparr>)
       (apiClient ((config env)\<lparr>cfg_retries := r\<rparr>)) ep opts s =
     request env (apiClient (config env)) ep opts s"
proof -
  have most: "sends (new_events s (snd (request env this ep opts s))) \<le> 1"
    by (simp add: request_sends_at_most_once split: sum.splits)
  have one: "builds_settings opts \<longrightarrow> sends (new_events s (snd (request env this ep opts s))) = 1"
    using settings_built [of opts this ep] by (auto simp: request_sends_at_most_once)
  have gets: "\<And>e. sends (new_events s (snd (request env this e no_options s))) = 1"
    by (simp add: request_sends_at_most_once settings_no_options)
  have posts: "\<And>e. sends (new_events s (snd (request env this e (post_options (Json params)) s))) = 1"
    by (simp add: request_sends_at_most_once settings_post)
  have retries: "request (env\<lparr>config := (config env)\<lparr>cfg_retries := r\<rparr>\<rparr>)
       (apiClient ((config env)\<lparr>cfg_retries := r\<rparr>)) ep opts s =
     request env (apiClient (config env)) ep opts s"
    by (simp add: request_def apiClient_def GEEApiClient_def Let_def split: sum.splits)
  show ?thesis
    using most one retries
    by (simp add: healthCheck_def getProvinces_def getCities_def getRegionGeometry_def
        analyzeVegetation_def analyzeLandCover_def analyzeTimeSeries_def exportToDrive_def
        gets posts)
qed

theorem request_at_most_once_witness:
  "builds_settings (no_options\<lparr>opt_method := Some (Str ''PUT''), opt_data := Some (Json (Num 0))\<rparr>) \<and>
   sends (new_events s_init
     (snd (request (page ''combined'' (failing server_error)) (apiClient API_CONFIG) ''/health''
             (no_options\<lparr>opt_method := Some (Str ''PUT''), opt_data := Some (Json (Num 0))\<rparr>)
             s_init))) = 1"
  using request_at_most_once [of s_init "page ''combined'' (failing server_error)"
      "apiClient API_CONFIG" "''/health''"
      "no_options\<lparr>opt_method := Some (Str ''PUT''), opt_data := Some (Json (Num 0))\<rparr>"
      Null Null Null Null 3]
  by (simp add: builds_settings_def no_options_def)

text \<open>
  C4 as first stated has every invocation make exactly one call. An export whose
  parameters \<^verbatim>\<open>JSON.stringify\<close> cannot serialise makes none, and reports a network
  error; nor does a request whose options carry \<^verbatim>\<open>headers: null\<close>.
\<close>

theorem request_without_call:
  "sends (new_events s_init
     (snd (exportToDrive (page ''combined'' (serving vegetation_body)) (apiClient API_CONFIG)
             Unserializable s_init))) = 0 \<and>
   fst (exportToDrive (page ''combined'' (serving vegetation_body)) (apiClient API_CONFIG)
          Unserializable s_init) = Inr (Failure (Str ''Network error'')) \<and>
   sends (new_events s_init
     (snd (request (page ''combined'' (serving vegetation_body)) (apiClient API_CONFIG)
             ''/health'' (no_options\<lparr>opt_headers := Some Null\<rparr>) s_init))) = 0"
  by (simp add: exportToDrive_def post_options_def request_def ajax_settings_of_def no_options_def
      request_catch_def new_events_def emit_log s_init_def sends_simps js_or_def get_prop_opt_def)

section \<open>The loading indicator\<close>

text \<open>
  C3, amended. Each of the three load functions shows the loading indicator, sends its
  request, and hides the indicator exactly once, after the outcome of the request has
  arrived and before anything is done with it, whether the request succeeded or
  failed. The two analysis functions do the same when an area of interest is
  selected; without one they show the warning and return, and the indicator is
  neither shown nor hidden.
\<close>

theorem loading_hidden_once:
  "hidden_once_after_response (new_events s (snd (loadProvincesFromAPI env s))) \<and>
   hidden_once_after_response (new_events s (snd (loadCitiesFromAPI env provinceCode s))) \<and>
   hidden_once_after_response (new_events s (snd (loadRegionGeometryFromAPI env endpoint code s))) \<and>
   (case currentAOI s of
      None \<Rightarrow> new_events s (snd (runVegetationAnalysisAPI env s)) =
                [ShowAlert ''Please select an AOI first'' ''warning'']
    | Some a \<Rightarrow> hidden_once_after_response (new_events s (snd (runVegetationAnalysisAPI env s)))) \<and>
   (case currentAOI s of
      None \<Rightarrow> new_events s (snd (runLandCoverAnalysisAPI env s)) =
                [ShowAlert ''Please select an AOI first'' ''warning'']
    | Some a \<Rightarrow> hidden_once_after_response (new_events s (snd (runLandCoverAnalysisAPI env s))))"
proof (cases "currentAOI s")
  case None
  then show ?thesis
    using provinces_hidden [of s env] cities_hidden [of s env provinceCode]
      region_hidden [of s env endpoint code]
    by (simp add: vegetation_run landcover_run new_events_def)
next
  case (Some a)
  then show ?thesis
    using provinces_hidden [of s env] cities_hidden [of s env provinceCode]
      region_hidden [of s env endpoint code] vegetation_hidden [of s a env]
      landcover_hidden [of s a env]
    by simp
qed

theorem loading_hidden_once_witness:
  "new_events s_jakarta
     (snd (loadProvincesFromAPI (page ''combined'' (failing server_error)) s_jakarta)) =
     [ShowLoading ''Loading provinces...'' ''Fetching data from server'',
      AjaxSend (get_settings (apiClient API_CONFIG) ''/regions/provinces''),
      AjaxSettle (Rejected server_error),
      ConsoleError ''API Request Error:'',
      HideLoading,
      ShowAlert ''Failed to load provinces: Earth Engine quota exceeded'' ''danger''] \<and>
   hidden_once_after_response (new_events s_jakarta
     (snd (loadProvincesFromAPI (page ''combined'' (failing server_error)) s_jakarta))) \<and>
   hidden_once_after_response (new_events s_jakarta
     (snd (runVegetationAnalysisAPI (page ''combined'' (failing server_error)) s_jakarta))) \<and>
   new_events s_init
     (snd (runLandCoverAnalysisAPI (page ''combined'' (failing server_error)) s_init)) =
     [ShowAlert ''Please select an AOI first'' ''warning'']"
proof -
  have run: "new_events s_jakarta
     (snd (loadProvincesFromAPI (page ''combined'' (failing server_error)) s_jakarta)) =
     [ShowLoading ''Loading provinces...'' ''Fetching data from server'',
      AjaxSend (get_settings (apiClient API_CONFIG) ''/regions/provinces''),
      AjaxSettle (Rejected server_error),
      ConsoleError ''API Request Error:'',
      HideLoading,
      ShowAlert ''Failed to load provinces: Earth Engine quota exceeded'' ''danger'']"
    by (simp add: loadProvincesFromAPI_def getProvinces_def request_get effects Let_def
        new_events_def page_def failing_def error_text_def server_error_def get_prop_opt_def
        s_jakarta_def s_init_def)
  show ?thesis
    using loading_hidden_once [of s_jakarta "page ''combined'' (failing server_error)" Null Null Null]
      loading_hidden_once [of s_init "page ''combined'' (failing server_error)" Null Null Null]
      run
    by (simp add: s_jakarta_def s_init_def)
qed

text \<open>
  C3 as first stated has every invocation hide the indicator once. A vegetation
  analysis started with no area of interest never hides it.
\<close>

theorem vegetation_without_aoi_never_hides:
  "hides (new_events s_init
     (snd (runVegetationAnalysisAPI (page ''vegetation'' (serving vegetation_body)) s_init))) = 0"
  by (simp add: vegetation_run s_init_def new_events_def hides_simps)

section \<open>The analysis functions without an area of interest\<close>

text \<open>
  C7. With no area of interest selected, the vegetation analysis, the land-cover
  analysis and the composite analysis each show the alert \<^verbatim>\<open>Please select an AOI first\<close>
  with severity \<^verbatim>\<open>warning\<close> and do nothing else, so no network call is made; the two
  analyses return \<^verbatim>\<open>null\<close> and the composite returns \<^verbatim>\<open>undefined\<close>.
\<close>

theorem no_aoi_aborts:
  assumes "currentAOI s = None"
  shows "runVegetationAnalysisAPI env s =
           (Inr Null, showAlert ''Please select an AOI first'' ''warning'' s) \<and>
         runLandCoverAnalysisAPI env s =
           (Inr Null, showAlert ''Please select an AOI first'' ''warning'' s) \<and>
         runCompleteAnalysis env s =
           (Inr (), showAlert ''Please select an AOI first'' ''warning'' s) \<and>
         new_events s (showAlert ''Please select an AOI first'' ''warning'' s) =
           [ShowAlert ''Please select an AOI first'' ''warning''] \<and>
         sends (new_events s (showAlert ''Please select an AOI first'' ''warning'' s)) = 0"
  using assms
  by (simp add: runVegetationAnalysisAPI_def runLandCoverAnalysisAPI_def runCompleteAnalysis_def
      effects new_events_def sends_simps)

theorem no_aoi_aborts_witness:
  "currentAOI s_init = None \<and>
   runVegetationAnalysisAPI (page ''combined'' (serving vegetation_body)) s_init =
     (Inr Null, showAlert ''Please select an AOI first'' ''warning'' s_init) \<and>
   runCompleteAnalysis (page ''combined'' (serving vegetation_body)) s_init =
     (Inr (), showAlert ''Please select an AOI first'' ''warning'' s_init)"
  using no_aoi_aborts [of s_init "page ''combined'' (serving vegetation_body)"]
  by (simp add: s_init_def)

section \<open>The composite analysis\<close>




text \<open>
  C5. In every run of the composite analysis, whatever the outcomes of the calls and
  whatever the page does while the function waits, at most one call is in flight at any
  moment: before the first outcome arrives it can only be the vegetation call (when
  the analysis type asks for vegetation), afterwards only the land-cover call. With an
  area of interest and a type that asks for vegetation, the function first shows the
  indicator, sends the vegetation call and waits. When the type is \<^verbatim>\<open>combined\<close>, the
  outcome arrives (other than a success without a body, on which the vegetation
  function throws) and an area of interest is still selected, the vegetation analysis
  finishes (the outcome is recorded, the indicator hidden, the alert shown) and only
  then does the land-cover analysis begin, by showing the indicator and sending its
  call. Run with each call answered at once, the function is the composite analysis
  as modelled before.
\<close>

theorem complete_awaits_in_sequence:
  "length (in_flight (settled (runCompleteAnalysis_task env s) ds)) \<le> 1 \<and>
   list_all (\<lambda>c. ajax_url c = (if ds = [] \<and> wants_vegetation (dom_val env ''#analysisType'')
                                 then vegetation_url env else landcover_url env))
     (in_flight (settled (runCompleteAnalysis_task env s) ds)) \<and>
   (currentAOI s = Some a \<and> wants_vegetation (dom_val env ''#analysisType'') \<longrightarrow>
      in_flight (runCompleteAnalysis_task env s) = [vegetation_call env a] \<and>
      reached (runCompleteAnalysis_task env s) =
        s\<lparr>analysisResults := [],
           log := log s @
             [ShowLoading ''Analyzing vegetation indices...'' ''Processing Sentinel-2 imagery'',
              AjaxSend (vegetation_call env a)]\<rparr>) \<and>
   (currentAOI s = Some a \<and> currentAOI s' = Some a' \<and>
    dom_val env ''#analysisType'' = Str ''combined'' \<and> \<not> bodiless outcome \<longrightarrow>
      in_flight (settle (runCompleteAnalysis_task env s) (i, outcome, s')) =
        [landcover_call env a'] \<and>
      new_events s' (reached (settle (runCompleteAnalysis_task env s) (i, outcome, s'))) =
        (case outcome of
           Resolved d \<Rightarrow>
             [AjaxSettle outcome, HideLoading,
              ShowAlert (''Analysis complete! Found '' @
                           to_string (get_prop_opt d ''collection_size'') @ '' images'') ''success'']
         | Rejected x \<Rightarrow>
             [AjaxSettle outcome, ConsoleError ''API Request Error:'', HideLoading,
              ShowAlert (''Vegetation analysis failed: '' @ to_string (error_text x)) ''danger'']) @
        [ShowLoading ''Analyzing land cover...'' ''Processing land cover datasets'',
         AjaxSend (landcover_call env a')]) \<and>
   run env (runCompleteAnalysis_task env s) = Some (runCompleteAnalysis env s)"
proof -
  have one: "length (in_flight (settled (runCompleteAnalysis_task env s) ds)) \<le> 1"
    by (intro sequential_in_flight sequential_settled sequential_complete)
  have urls: "list_all (\<lambda>c. ajax_url c = (if ds = [] \<and> wants_vegetation (dom_val env ''#analysisType'')
                                 then vegetation_url env else landcover_url env))
     (in_flight (settled (runCompleteAnalysis_task env s) ds))"
  proof (cases ds)
    case Nil
    then show ?thesis using calls_at_first [of env s] by (simp add: settled_def)
  next
    case (Cons d rest)
    have "calls_only (\<lambda>c. ajax_url c = landcover_url env)
            (settled (settle (runCompleteAnalysis_task env s) d) rest)"
      by (intro calls_only_settled calls_after_first)
    then show ?thesis using Cons by (simp add: settled_def calls_only_in_flight)
  qed
  show ?thesis
    using one urls complete_task_sent [of s a env]
      complete_task_resumed [of s a s' a' env outcome i] run_complete [of env s]
    by blast
qed

theorem complete_awaits_in_sequence_witness:
  "currentAOI s_jakarta = Some jakarta \<and> currentAOI s_waiting = Some jakarta \<and>
   dom_val (page ''combined'' (serving vegetation_body)) ''#analysisType'' = Str ''combined'' \<and>
   \<not> bodiless (Resolved vegetation_body) \<and>
   in_flight (runCompleteAnalysis_task (page ''combined'' (serving vegetation_body)) s_jakarta) =
     [vegetation_call (page ''combined'' (serving vegetation_body)) jakarta] \<and>
   reached (runCompleteAnalysis_task (page ''combined'' (serving vegetation_body)) s_jakarta) =
     s_waiting \<and>
   in_flight (settle (runCompleteAnalysis_task (page ''combined'' (serving vegetation_body)) s_jakarta)
                (0, Resolved vegetation_body, s_waiting)) =
     [landcover_call (page ''combined'' (serving vegetation_body)) jakarta] \<and>
   new_events s_waiting
     (reached (settle (runCompleteAnalysis_task (page ''combined'' (serving vegetation_body)) s_jakarta)
                 (0, Resolved vegetation_body, s_waiting))) =
     [AjaxSettle (Resolved vegetation_body), HideLoading,
      ShowAlert ''Analysis complete! Found 12 images'' ''success'',
      ShowLoading ''Analyzing land cover...'' ''Processing land cover datasets'',
      AjaxSend (landcover_call (page ''combined'' (serving vegetation_body)) jakarta)]"
proof -
  let ?env = "page ''combined'' (serving vegetation_body)"
  have a: "currentAOI s_jakarta = Some jakarta" by (simp add: s_jakarta_def)
  have a': "currentAOI s_waiting = Some jakarta" by (simp add: s_waiting_def s_jakarta_def)
  have ty: "dom_val ?env ''#analysisType'' = Str ''combined''" by (simp add: page_def)
  have b: "\<not> bodiless (Resolved vegetation_body)" by (simp add: vegetation_body_def)
  have n: "to_string (get_prop_opt vegetation_body ''collection_size'') = ''12''"
    by (simp add: vegetation_body_def get_prop_opt_def show_int_def show_nat.simps digit_chars)
  have w: "wants_vegetation (dom_val ?env ''#analysisType'')"
    by (simp add: ty wants_vegetation_def)
  have r: "s_jakarta\<lparr>analysisResults := [],
             log := log s_jakarta @
               [ShowLoading ''Analyzing vegetation indices...'' ''Processing Sentinel-2 imagery'',
                AjaxSend (vegetation_call ?env jakarta)]\<rparr> = s_waiting"
    by (simp add: s_waiting_def s_jakarta_def s_init_def)
  note run = complete_awaits_in_sequence [of ?env s_jakarta "[]" jakarta s_waiting jakarta
      "Resolved vegetation_body" 0]
  from run a w have first: "in_flight (runCompleteAnalysis_task ?env s_jakarta) =
      [vegetation_call ?env jakarta] \<and> reached (runCompleteAnalysis_task ?env s_jakarta) = s_waiting"
    unfolding r by blast
  from run a a' ty b have second:
    "in_flight (settle (runCompleteAnalysis_task ?env s_jakarta)
                  (0, Resolved vegetation_body, s_waiting)) = [landcover_call ?env jakarta] \<and>
     new_events s_waiting
       (reached (settle (runCompleteAnalysis_task ?env s_jakarta)
                   (0, Resolved vegetation_body, s_waiting))) =
       (case Resolved vegetation_body of
           Resolved d \<Rightarrow>
             [AjaxSettle (Resolved vegetation_body), HideLoading,
              ShowAlert (''Analysis complete! Found '' @
                           to_string (get_prop_opt d ''collection_size'') @ '' images'') ''success'']
         | Rejected x \<Rightarrow>
             [AjaxSettle (Resolved vegetation_body), ConsoleError ''API Request Error:'', HideLoading,
              ShowAlert (''Vegetation analysis failed: '' @ to_string (error_text x)) ''danger'']) @
        [ShowLoading ''Analyzing land cover...'' ''Processing land cover datasets'',
         AjaxSend (landcover_call ?env jakarta)]"
    by blast
  show ?thesis
    using first second a a' ty b by (simp add: n)
qed

text \<open>
  C6. With analysis type \<^verbatim>\<open>vegetation\<close>, a run of the composite analysis makes no call
  to the land-cover endpoint.
\<close>

theorem vegetation_type_no_landcover_call:
  assumes "dom_val env ''#analysisType'' = Str ''vegetation''"
  shows "landcover_url env \<notin> set (send_urls (new_events s (snd (runCompleteAnalysis env s))))"
  using assms urls_differ [of env]
  by (simp add: complete_defs new_events_def send_urls_simps call_urls Let_def
      split: option.splits ajax_outcome.splits sum.splits prod.splits if_splits)

theorem vegetation_type_no_landcover_call_witness:
  "dom_val (page ''vegetation'' (serving vegetation_body)) ''#analysisType'' = Str ''vegetation'' \<and>
   landcover_url (page ''vegetation'' (serving vegetation_body))
     \<notin> set (send_urls (new_events s_jakarta
          (snd (runCompleteAnalysis (page ''vegetation'' (serving vegetation_body)) s_jakarta))))"
proof -
  have ty: "dom_val (page ''vegetation'' (serving vegetation_body)) ''#analysisType'' =
            Str ''vegetation''"
    by (simp add: page_def)
  show ?thesis
    using vegetation_type_no_landcover_call [OF ty, of s_jakarta] ty by simp
qed

section \<open>Loading a region\<close>

text \<open>
  C10, amended. When the geometry request is rejected, or succeeds with a falsy body
  (\<^verbatim>\<open>null\<close>, no body, \<^verbatim>\<open>false\<close>, \<^verbatim>\<open>0\<close>, the empty string), loading the region returns
  \<^verbatim>\<open>null\<close> and leaves the current area of interest and the drawn layers as they were.
\<close>

theorem region_failure_keeps_state:
  assumes "(\<exists>x. net env (sends (log s)) (geometry_call env endpoint code) = Rejected x) \<or>
           (\<exists>d. net env (sends (log s)) (geometry_call env endpoint code) = Resolved d \<and> \<not> truthy d)"
  shows "fst (loadRegionGeometryFromAPI env endpoint code s) = Inr Null \<and>
         currentAOI (snd (loadRegionGeometryFromAPI env endpoint code s)) = currentAOI s \<and>
         drawnItems (snd (loadRegionGeometryFromAPI env endpoint code s)) = drawnItems s"
  using assms
  by (auto simp add: loadRegionGeometryFromAPI_def getRegionGeometry_def request_get effects
      sends_append sends_simps Let_def geometry_call_def
      split: ajax_outcome.splits sum.splits)

theorem region_failure_keeps_state_witness:
  "net (leaflet_page (failing server_error)) (sends (log s_drawn))
     (geometry_call (leaflet_page (failing server_error)) (Str ''province'') (Str ''31''))
     = Rejected server_error \<and>
   fst (loadRegionGeometryFromAPI (leaflet_page (failing server_error))
          (Str ''province'') (Str ''31'') s_drawn) = Inr Null \<and>
   currentAOI (snd (loadRegionGeometryFromAPI (leaflet_page (failing server_error))
          (Str ''province'') (Str ''31'') s_drawn)) = Some jakarta \<and>
   drawnItems (snd (loadRegionGeometryFromAPI (leaflet_page (failing server_error))
          (Str ''province'') (Str ''31'') s_drawn)) = [jakarta_layer] \<and>
   net (leaflet_page (serving Null)) (sends (log s_drawn))
     (geometry_call (leaflet_page (serving Null)) (Str ''province'') (Str ''31''))
     = Resolved Null \<and>
   fst (loadRegionGeometryFromAPI (leaflet_page (serving Null))
          (Str ''province'') (Str ''31'') s_drawn) = Inr Null \<and>
   currentAOI (snd (loadRegionGeometryFromAPI (leaflet_page (serving Null))
          (Str ''province'') (Str ''31'') s_drawn)) = Some jakarta \<and>
   drawnItems (snd (loadRegionGeometryFromAPI (leaflet_page (serving Null))
          (Str ''province'') (Str ''31'') s_drawn)) = [jakarta_layer]"
proof -
  let ?e1 = "leaflet_page (failing server_error)"
  let ?e2 = "leaflet_page (serving Null)"
  have n1: "net ?e1 (sends (log s_drawn)) (geometry_call ?e1 (Str ''province'') (Str ''31''))
     = Rejected server_error"
    by (simp add: leaflet_page_def page_def failing_def)
  have n2: "net ?e2 (sends (log s_drawn)) (geometry_call ?e2 (Str ''province'') (Str ''31''))
     = Resolved Null"
    by (simp add: leaflet_page_def page_def serving_def)
  have h1: "(\<exists>x. net ?e1 (sends (log s_drawn)) (geometry_call ?e1 (Str ''province'') (Str ''31''))
                 = Rejected x) \<or>
            (\<exists>d. net ?e1 (sends (log s_drawn)) (geometry_call ?e1 (Str ''province'') (Str ''31''))
                 = Resolved d \<and> \<not> truthy d)"
    using n1 by blast
  have h2: "(\<exists>x. net ?e2 (sends (log s_drawn)) (geometry_call ?e2 (Str ''province'') (Str ''31''))
                 = Rejected x) \<or>
            (\<exists>d. net ?e2 (sends (log s_drawn)) (geometry_call ?e2 (Str ''province'') (Str ''31''))
                 = Resolved d \<and> \<not> truthy d)"
    using n2 by simp
  from region_failure_keeps_state [OF h1] region_failure_keeps_state [OF h2] n1 n2
  show ?thesis
    by (simp add: s_drawn_def s_jakarta_def)
qed

text \<open>
  C10 as first stated covers every empty reply. The empty object \<^verbatim>\<open>{}\<close> is empty data
  and truthy: the success branch is taken, the drawn layers are cleared, and
  \<^verbatim>\<open>L.geoJSON\<close> throws, so the function does not return \<^verbatim>\<open>null\<close> and the layer that was
  drawn is gone.
\<close>

theorem region_empty_object_clears_layers:
  "drawnItems s_drawn = [jakarta_layer] \<and>
   fst (loadRegionGeometryFromAPI (leaflet_page (serving (Obj [])))
          (Str ''province'') (Str ''31'') s_drawn) = Inl (Error ''Invalid GeoJSON object.'') \<and>
   drawnItems (snd (loadRegionGeometryFromAPI (leaflet_page (serving (Obj [])))
          (Str ''province'') (Str ''31'') s_drawn)) = []"
  by (simp add: loadRegionGeometryFromAPI_def getRegionGeometry_def request_get region_loaded_def
      effects Let_def leaflet_page_def page_def serving_def s_drawn_def s_jakarta_def s_init_def)

section \<open>Downloading the statistics\<close>

text \<open>
  C8. With an area of interest selected, the download offers exactly one file. Its
  content parses back to an object whose \<^verbatim>\<open>region\<close> field is the name of the area
  of interest, and its name is \<^verbatim>\<open>gee_analysis_\<close>, the name of the area with every
  run of whitespace replaced by a single underscore, an underscore, the epoch
  milliseconds in decimal, and \<^verbatim>\<open>.json\<close>.
\<close>

theorem download_roundtrip:
  assumes "currentAOI s = Some a"
  shows "fst (downloadStatisticsReal env s) = Inr () \<and>
         (\<exists>content.
            downloads (new_events s (snd (downloadStatisticsReal env s))) =
              [(''gee_analysis_'' @ underscore_runs (aoi_name a) @ ''_'' @
                  show_nat (date_millis env) @ ''.json'', content)] \<and>
            parsed_region content = Some (Inr (Str (aoi_name a))))"
proof -
  let ?stats = "build_stats env a (analysisResults s)"
  let ?content = "to_string (JSON_stringify2 ?stats)"
  have run: "downloadStatisticsReal env s =
      (Inr (), s\<lparr>log := log s @
         [Download (download_name (aoi_name a) (date_millis env)) ?content, RevokeObjectURL,
          ShowAlert ''Statistics downloaded successfully!'' ''success'']\<rparr>)"
    using assms by (simp add: downloadStatisticsReal_def Let_def emit_def showAlert_def)
  have name: "download_name (aoi_name a) (date_millis env) =
      ''gee_analysis_'' @ underscore_runs (aoi_name a) @ ''_'' @ show_nat (date_millis env) @ ''.json''"
    by (simp add: download_name_def replace_spaces_runs)
  have region: "parsed_region ?content = Some (Inr (Str (aoi_name a)))"
    by (simp add: parsed_region_def JSON_parse_stringify2 [OF stats_defined] stats_region
        del: json_norm.simps)
  show ?thesis
    using region by (simp add: run new_events_def downloads_simps name)
qed

theorem download_roundtrip_witness:
  "currentAOI s_jakarta = Some jakarta \<and>
   (\<exists>content.
      downloads (new_events s_jakarta
        (snd (downloadStatisticsReal (page ''combined'' (serving vegetation_body)) s_jakarta))) =
        [(''gee_analysis_DKI_Jakarta_1704067200000.json'', content)] \<and>
      parsed_region content = Some (Inr (Str ''DKI  Jakarta'')))"
proof -
  have a: "currentAOI s_jakarta = Some jakarta" by (simp add: s_jakarta_def)
  have n: "aoi_name jakarta = ''DKI  Jakarta''" by (simp add: jakarta_def)
  have m: "date_millis (page ''combined'' (serving vegetation_body)) = 1704067200000"
    by (simp add: page_def)
  show ?thesis
    using download_roundtrip [OF a, of "page ''combined'' (serving vegetation_body)"]
    by (simp only: a n m show_millis jakarta_runs) simp
qed

text \<open>
  C9. \<^verbatim>\<open>downloadStatisticsReal\<close> reads \<^verbatim>\<open>currentAOI.name\<close> with no guard: with no area of
  interest selected it throws a \<^verbatim>\<open>TypeError\<close> and does nothing else, in particular it
  shows no alert, where the analysis functions show a warning and return.
\<close>

theorem download_without_aoi_throws:
  assumes "currentAOI s = None"
  shows "downloadStatisticsReal env s =
           (Inl (TypeError ''Cannot read properties of null (reading name)''), s)"
  using assms by (simp add: downloadStatisticsReal_def)

theorem download_without_aoi_throws_witness:
  "currentAOI s_init = None \<and>
   downloadStatisticsReal (page ''combined'' (serving vegetation_body)) s_init =
     (Inl (TypeError ''Cannot read properties of null (reading name)''), s_init)"
  using download_without_aoi_throws [of s_init "page ''combined'' (serving vegetation_body)"]
  by (simp add: s_init_def)

end
